theory Spec2Isabelle
  imports Main "HOL-Library.Char_ord" "HOL-Library.List_Lexorder" "HOL-Library.Multiset"
    "HOL-Library.Sublist"
begin

section \<open>Errors and hosts\<close>

text \<open>The exceptions of the modelled paths, as values.\<close>

datatype py_error =
    CalledProcessError
  | UnexpectedExit
  | IndexError
  | KeyError
  | ValueError
  | JSONDecodeError
  | FileNotFoundError
  | FileExistsError
  | HostsFailed

text \<open>
  A \<^verbatim>\<open>DeployHost\<close> as tasks.py reads it: the address, the optional login user and the
  metadata dictionary.
\<close>

record DeployHost =
  host :: string
  user :: "string option"
  meta :: "string \<rightharpoonup> string"

text \<open>\<^verbatim>\<open>DeployHost(h, user="root")\<close>, as every task builds its hosts from names.\<close>

definition root_host :: "string \<Rightarrow> DeployHost" where
  "root_host h = \<lparr>host = h, user = Some ''root'', meta = Map.empty\<rparr>"

section \<open>Python strings as used by tasks.py\<close>

text \<open>
  \<^verbatim>\<open>s.split(c)\<close> for a one-character separator: the fields between the occurrences
  of the separator, empty fields kept, so the result is never the empty list.
\<close>

fun split_on :: "char \<Rightarrow> string \<Rightarrow> string list" where
  "split_on c [] = [[]]"
| "split_on c (x # xs) =
     (if x = c then [] # split_on c xs
      else (case split_on c xs of
              [] \<Rightarrow> [[x]]
            | y # ys \<Rightarrow> (x # y) # ys))"

text \<open>\<^verbatim>\<open>sep.join(xs)\<close>.\<close>

fun join :: "string \<Rightarrow> string list \<Rightarrow> string" where
  "join sep [] = []"
| "join sep [x] = x"
| "join sep (x # y # ys) = x @ sep @ join sep (y # ys)"

section \<open>ipmi_powerconsumption: the management hostname\<close>

text \<open>
  \<^verbatim>\<open>
  def mgmt_hostname(hostname: str) -> str:
      splits = hostname.split(".")
      splits[0] = f"{splits[0]}-mgmt"
      hostname = ".".join(splits)
      return hostname
  \<close>
  Index 0 is always in range, since \<open>split_on\<close> never returns the empty list
  (\<open>split_on_not_Nil\<close> below).
\<close>

definition mgmt_hostname :: "string \<Rightarrow> string" where
  "mgmt_hostname hostname =
     (let splits = split_on (CHR ''.'') hostname;
          splits = splits[0 := splits ! 0 @ ''-mgmt'']
      in join ''.'' splits)"

section \<open>deploy_nixos\<close>

text \<open>
  What a task does to the outside world, in the order it does it: the local
  \<^verbatim>\<open>subprocess.run\<close>, \<^verbatim>\<open>h.run_local(cmd)\<close> and \<^verbatim>\<open>h.run(cmd, check=...)\<close>, the last
  two with the address of the host they run for, and \<^verbatim>\<open>h.run\<close> with its \<^verbatim>\<open>check\<close> flag
  and the exit status the command returned; and the calls of \<^verbatim>\<open>os.chdir\<close>,
  \<^verbatim>\<open>os.mkdir\<close>, \<^verbatim>\<open>os.system\<close> and \<^verbatim>\<open>shutil.rmtree\<close>.
\<close>

datatype event =
    Subprocess "string list"
  | RunLocal string string
  | Run string "string list" bool int
  | Chdir string
  | Mkdir string
  | System string
  | Rmtree string

text \<open>
  The outside world as one host's callback sees it: the exit status of a local command,
  and the exit status of the \<open>n\<close>-th remote command (counted from 0), which may differ
  between two runs of the same command.
\<close>

record host_env =
  run_local_rc :: "string \<Rightarrow> int"
  run_rc :: "nat \<Rightarrow> string list \<Rightarrow> int"

text \<open>
  The rsync of the callback. \<^verbatim>\<open>target\<close> is \<^verbatim>\<open>h.user or 'root'\<close> (the user, or
  \<open>root\<close> when it is unset or empty), an at sign and \<^verbatim>\<open>h.host\<close>; the flake path is
  \<^verbatim>\<open>h.meta.get("flake_path", "/etc/nixos")\<close>; the command line run locally is
  \<^verbatim>\<open>rsync --checksum -vaF --delete -e ssh PATH/ TARGET:FLAKE_PATH\<close>.
\<close>

definition target :: "DeployHost \<Rightarrow> string" where
  "target h =
     (case user h of
        None \<Rightarrow> ''root''
      | Some u \<Rightarrow> (if u = [] then ''root'' else u)) @ ''@'' @ host h"

definition meta_flake_path :: "DeployHost \<Rightarrow> string" where
  "meta_flake_path h =
     (case meta h ''flake_path'' of None \<Rightarrow> ''/etc/nixos'' | Some p \<Rightarrow> p)"

definition rsync_cmd :: "string \<Rightarrow> DeployHost \<Rightarrow> string" where
  "rsync_cmd path h =
     ''rsync --checksum -vaF --delete -e ssh '' @ path @ ''/ '' @ target h @ '':'' @
       meta_flake_path h"

text \<open>
  The argument vector of the activation: the flake path with \<open>#flake_attr\<close> when the
  attribute is set and not empty, and \<open>--target-host\<close> when a target host is set and not
  empty, with the target user in front when that is set and not empty.
\<close>

definition switch_cmd :: "DeployHost \<Rightarrow> string list" where
  "switch_cmd h =
     (let flake_path =
            (case meta h ''flake_attr'' of
               None \<Rightarrow> meta_flake_path h
             | Some a \<Rightarrow> (if a = [] then meta_flake_path h else meta_flake_path h @ ''#'' @ a));
          cmd = [''nixos-rebuild'', ''switch'', ''--fast'', ''--option'', ''accept-flake-config'',
                 ''true'', ''--flake'', flake_path, ''--option'', ''keep-going'', ''true'']
      in (case meta h ''target_host'' of
            None \<Rightarrow> cmd
          | Some th \<Rightarrow>
              (if th = [] then cmd
               else (case meta h ''target_user'' of
                       None \<Rightarrow> cmd @ [''--target-host'', th]
                     | Some tu \<Rightarrow>
                         (if tu = [] then cmd @ [''--target-host'', th]
                          else cmd @ [''--target-host'', tu @ ''@'' @ th])))))"

text \<open>
  The callback \<^verbatim>\<open>deploy(h)\<close>. \<^verbatim>\<open>run_local\<close> and the second \<^verbatim>\<open>run\<close> check the exit
  status and raise on a non-zero one; the first \<^verbatim>\<open>run\<close> is called with
  \<^verbatim>\<open>check=False\<close> and returns the status:
  \<^verbatim>\<open>
  ret = h.run(cmd, check=False)
  # re-retry switch if the first time fails
  if ret.returncode != 0:
      ret = h.run(cmd)
  \<close>
  The result is the events of the callback in program order and how it ended: with
  the exception that left it, or by returning.
\<close>

definition deploy :: "string \<Rightarrow> DeployHost \<Rightarrow> host_env \<Rightarrow> event list \<times> (py_error + unit)" where
  "deploy path h env =
     (if run_local_rc env (rsync_cmd path h) \<noteq> 0
      then ([RunLocal (host h) (rsync_cmd path h)], Inl CalledProcessError)
      else
        (let cmd = switch_cmd h;
             ret = run_rc env 0 cmd
         in if ret \<noteq> 0
            then
              (let ret2 = run_rc env 1 cmd
               in ([RunLocal (host h) (rsync_cmd path h), Run (host h) cmd False ret,
                    Run (host h) cmd True ret2],
                   if ret2 \<noteq> 0 then Inl CalledProcessError else Inr ()))
            else ([RunLocal (host h) (rsync_cmd path h), Run (host h) cmd False ret],
                  Inr ())))"

text \<open>
  \<^verbatim>\<open>g.run_function(deploy)\<close> runs one thread per host and waits for all of them. The
  threads' steps interleave; the schedule names, step by step, the thread (by its
  position in the host list) that takes the next step. A thread that is named when it
  has finished, or a position beyond the list, is skipped, and when the schedule ends the
  threads still running finish one after the other, so every schedule yields a complete
  run and every interleaving of the threads' events is the run of some schedule.
\<close>

fun interleave :: "nat list \<Rightarrow> 'e list list \<Rightarrow> 'e list" where
  "interleave [] tss = concat tss"
| "interleave (i # sched) tss =
     (if i < length tss
      then (case tss ! i of
              [] \<Rightarrow> interleave sched tss
            | e # es \<Rightarrow> e # interleave sched (tss[i := es]))
      else interleave sched tss)"

definition nix_flake_metadata :: "string list" where
  "nix_flake_metadata = [''nix'', ''flake'', ''metadata'', ''--json'']"

text \<open>
  \<^verbatim>\<open>deploy_nixos(hosts)\<close>. \<open>metadata\<close> is what lines 32 to 39 yield: the \<open>path\<close> entry
  of the JSON that \<^verbatim>\<open>nix flake metadata --json\<close> prints, or the exception raised on the
  way (the command is run with \<^verbatim>\<open>check=True\<close>), which ends the deployment before any
  host is touched. The result is the events of the whole run and, when the hosts were
  dispatched to, each host's outcome in host-list order, as \<^verbatim>\<open>run_function\<close> collects
  them in its list of per-host results.
\<close>

definition deploy_nixos ::
  "(py_error + string) \<Rightarrow> (DeployHost \<times> host_env) list \<Rightarrow> nat list \<Rightarrow>
     event list \<times> (py_error + (py_error + unit) list)" where
  "deploy_nixos metadata hosts sched =
     (case metadata of
        Inl e \<Rightarrow> ([Subprocess nix_flake_metadata], Inl e)
      | Inr path \<Rightarrow>
          (let runs = map (\<lambda>(h, env). deploy path h env) hosts
           in (Subprocess nix_flake_metadata # interleave sched (map fst runs),
               Inr (map snd runs))))"

section \<open>Reading a deployment's events\<close>

text \<open>
  In \<open>deploy\<close> the remote command called with \<^verbatim>\<open>check=False\<close> is the first attempt of
  the activation and the one called with the default \<^verbatim>\<open>check\<close> is its retry.
\<close>

fun is_first_attempt :: "event \<Rightarrow> bool" where
  "is_first_attempt (Run h cmd c rc) = (\<not> c)"
| "is_first_attempt _ = False"

fun is_retry :: "event \<Rightarrow> bool" where
  "is_retry (Run h cmd c rc) = c"
| "is_retry _ = False"

text \<open>The remote commands of a run, first attempts and retries, in the order issued.\<close>

definition activations :: "event list \<Rightarrow> event list" where
  "activations evs = filter (\<lambda>e. is_first_attempt e \<or> is_retry e) evs"

fun is_metadata :: "event \<Rightarrow> bool" where
  "is_metadata (Subprocess cmd) = True"
| "is_metadata _ = False"

text \<open>
  Retries as a second full pass: once a retry has been issued, no first attempt on any
  host is issued after it.
\<close>

fun second_pass_only :: "event list \<Rightarrow> bool" where
  "second_pass_only [] = True"
| "second_pass_only (e # es) =
     ((if is_retry e then list_all (\<lambda>e'. \<not> is_first_attempt e') es else True) \<and>
      second_pass_only es)"

text \<open>
  Retries per host: every retry comes after a first attempt of the same command on the
  same host that returned a non-zero status. \<open>seen\<close> holds the events before the list,
  latest first.
\<close>

fun failed_first_attempt_of :: "string \<Rightarrow> string list \<Rightarrow> event \<Rightarrow> bool" where
  "failed_first_attempt_of h cmd (Run h' cmd' c rc) = (h' = h \<and> cmd' = cmd \<and> \<not> c \<and> rc \<noteq> 0)"
| "failed_first_attempt_of h cmd _ = False"

fun retry_justified :: "event list \<Rightarrow> event \<Rightarrow> bool" where
  "retry_justified seen (Run h cmd c rc) =
     (if c then list_ex (failed_first_attempt_of h cmd) seen else True)"
| "retry_justified seen _ = True"

fun retry_after_own_first :: "event list \<Rightarrow> event list \<Rightarrow> bool" where
  "retry_after_own_first seen [] = True"
| "retry_after_own_first seen (e # es) =
     (retry_justified seen e \<and> retry_after_own_first (e # seen) es)"

text \<open>
  An outside world for examples: the local command exits with \<open>r\<close>, the first remote
  command with \<open>a\<close> and every later one with \<open>b\<close>.
\<close>

definition env_of :: "int \<Rightarrow> int \<Rightarrow> int \<Rightarrow> host_env" where
  "env_of r a b = \<lparr>run_local_rc = (\<lambda>_. r), run_rc = (\<lambda>n _. if n = 0 then a else b)\<rparr>"

section \<open>document_cards\<close>

text \<open>\<^verbatim>\<open>pat in s\<close> on strings: \<open>pat\<close> occurs in \<open>s\<close> as a contiguous run.\<close>

fun contains :: "string \<Rightarrow> string \<Rightarrow> bool" where
  "contains pat [] = (pat = [])"
| "contains pat (x # xs) = (prefix pat (x # xs) \<or> contains pat xs)"

text \<open>
  The two marks of \<^verbatim>\<open>doc_cards\<close>, U+2705 and U+274C, as their UTF-8 bytes.
\<close>

definition check_mark :: string where
  "check_mark = [CHR 0xE2, CHR 0x9C, CHR 0x85]"

definition cross_mark :: string where
  "cross_mark = [CHR 0xE2, CHR 0x9D, CHR 0x8C]"

text \<open>
  The loop of \<^verbatim>\<open>doc_cards\<close> over \<^verbatim>\<open>inxi_slots.stdout.splitlines()\<close>, with the result
  string and the reversed list of descriptions as its state; \<^verbatim>\<open>descriptions.pop()\<close>
  takes the last element:
  \<^verbatim>\<open>
  for line in inxi_slots.stdout.splitlines():
      is_device_line = False
      if "status: Available" in line:
          line = "- (U+2705)" + line; is_device_line = True
      if "status: In Use" in line:
          line = "- (U+274C)" + line; is_device_line = True
      result += line + "   \n"
      if is_device_line:
          if len(descriptions) == 0: result += "Error\n"
          else: result += descriptions.pop() + "  \n"
  \<close>
  The second test reads the line as the first branch left it.
\<close>

fun doc_cards_loop :: "string list \<Rightarrow> string \<times> string list \<Rightarrow> string \<times> string list" where
  "doc_cards_loop [] (result, descriptions) = (result, descriptions)"
| "doc_cards_loop (line # lines) (result, descriptions) =
     (let (line, is_device_line) =
            (if contains ''status: Available'' line
             then (''- '' @ check_mark @ line, True) else (line, False));
          (line, is_device_line) =
            (if contains ''status: In Use'' line
             then (''- '' @ cross_mark @ line, True) else (line, is_device_line));
          result = result @ line @ ''   \<newline>''
      in if is_device_line
         then (if length descriptions = 0
               then doc_cards_loop lines (result @ ''Error\<newline>'', descriptions)
               else doc_cards_loop lines
                      (result @ last descriptions @ ''  \<newline>'', butlast descriptions))
         else doc_cards_loop lines (result, descriptions))"

text \<open>
  \<^verbatim>\<open>doc_cards(h)\<close>. \<open>slots\<close> is what \<^verbatim>\<open>get_slots(h)\<close> yields, the list of device
  descriptions or the exception of one of its remote commands; \<open>inxi_slots\<close> is the
  lines of the output of the \<^verbatim>\<open>inxi --slots\<close> command, or the exception the checked
  \<^verbatim>\<open>h.run\<close> raises.
\<close>

definition doc_cards ::
  "DeployHost \<Rightarrow> (py_error + string list) \<Rightarrow> (py_error + string list) \<Rightarrow> py_error + string" where
  "doc_cards h slots inxi_slots =
     (case slots of
        Inl e \<Rightarrow> Inl e
      | Inr descriptions \<Rightarrow>
          (let descriptions = rev descriptions in
           case inxi_slots of
             Inl e \<Rightarrow> Inl e
           | Inr lines \<Rightarrow>
               (let (result, descriptions) = doc_cards_loop lines ([], descriptions)
                in Inr (''### '' @ host h @ '' \<newline>\<newline>'' @ result @ '' \<newline>\<newline>''))))"

text \<open>
  The pairing in the specification's words. A status line is a line that reports a slot
  as \<open>status: Available\<close> or \<open>status: In Use\<close>; \<open>marked\<close> is the line as it is
  printed. \<open>paired_from n\<close> prints the lines one after the other and, after each status
  line, the description whose position in the list is the number of status lines before
  it (counted from \<open>n\<close>), or \<open>Error\<close> when the list has no such position.
\<close>

definition is_status_line :: "string \<Rightarrow> bool" where
  "is_status_line line =
     (contains ''status: Available'' line \<or> contains ''status: In Use'' line)"

definition marked :: "string \<Rightarrow> string" where
  "marked line =
     (if contains ''status: In Use'' line then ''- '' @ cross_mark else []) @
     (if contains ''status: Available'' line then ''- '' @ check_mark else []) @ line"

fun paired_from :: "nat \<Rightarrow> string list \<Rightarrow> string list \<Rightarrow> string" where
  "paired_from n descs [] = []"
| "paired_from n descs (line # lines) =
     marked line @ ''   \<newline>'' @
     (if is_status_line line
      then (if n < length descs then descs ! n @ ''  \<newline>'' else ''Error\<newline>'') @
           paired_from (Suc n) descs lines
      else paired_from n descs lines)"




section \<open>The host tables\<close>

text \<open>The global \<^verbatim>\<open>HOSTS\<close> list and the \<^verbatim>\<open>MANUFACTURERS\<close> dictionary, in source order.\<close>

definition HOSTS :: "string list" where
  "HOSTS =
     [''astrid.dse.in.tum.de'', ''dan.dse.in.tum.de'', ''mickey.dse.in.tum.de'',
      ''bill.dse.in.tum.de'', ''nardole.dse.in.tum.de'', ''yasmin.dse.in.tum.de'',
      ''graham.dse.in.tum.de'', ''ryan.dse.in.tum.de'', ''christina.dse.in.tum.de'',
      ''jackson.dse.in.tum.de'', ''adelaide.dse.in.tum.de'', ''wilfred.dse.in.tum.de'',
      ''river.dse.in.tum.de'', ''jack.dse.in.tum.de'', ''clara.dse.in.tum.de'',
      ''amy.dse.in.tum.de'', ''rose.dse.in.tum.de'']"

definition MANUFACTURERS :: "(string \<times> string list) list" where
  "MANUFACTURERS =
     [(''dell'',
       [''ryan.dse.in.tum.de'', ''graham.dse.in.tum.de'', ''astrid.dse.in.tum.de'',
        ''dan.dse.in.tum.de'', ''mickey.dse.in.tum.de'']),
      (''supermicro'',
       [''jackson.dse.in.tum.de'', ''christina.dse.in.tum.de'', ''adelaide.dse.in.tum.de'',
        ''wilfred.dse.in.tum.de'', ''river.dse.in.tum.de'', ''jack.dse.in.tum.de'',
        ''clara.dse.in.tum.de'', ''amy.dse.in.tum.de'', ''rose.dse.in.tum.de'']),
      (''supermicro_broken'',
       [''bill.dse.in.tum.de'', ''nardole.dse.in.tum.de''])]"

section \<open>ipmi_powerconsumption\<close>

text \<open>
  The outside world of the IPMI tasks, and the Python built-ins the parse uses:
  \<open>c_run cmd\<close> is what \<^verbatim>\<open>c.run(cmd)\<close> yields, the standard output of the command or the
  exception raised for a non-zero exit status; \<open>str_splitlines\<close>, \<open>str_strip\<close> and
  \<open>int_of_str\<close> stand for \<^verbatim>\<open>str.splitlines\<close>, \<^verbatim>\<open>str.strip\<close> and \<^verbatim>\<open>int\<close>, the last
  with its \<^verbatim>\<open>ValueError\<close>. The theorems hold for every such world.
\<close>

record world =
  c_run :: "string \<Rightarrow> py_error + string"
  str_splitlines :: "string \<Rightarrow> string list"
  str_strip :: "string \<Rightarrow> string"
  int_of_str :: "string \<Rightarrow> py_error + int"

text \<open>
  \<^verbatim>\<open>ipmi_password(c)\<close> and \<^verbatim>\<open>ipmitool(c, host, cmd)\<close>: the password is fetched by a
  \<^verbatim>\<open>sops\<close> call on every use and put, in single quotes, into the \<^verbatim>\<open>ipmitool\<close> command
  line. \<open>CHR 0x27\<close> is the single quote and \<open>CHR 0x22\<close> the double quote.
\<close>

definition ipmi_password :: "world \<Rightarrow> py_error + string" where
  "ipmi_password w =
     c_run w (''sops -d --extract '' @ [CHR 0x27] @ ''['' @ [CHR 0x22] @ ''ipmi-passwords'' @
              [CHR 0x22] @ '']'' @ [CHR 0x27] @ '' secrets.yml'')"

definition ipmitool :: "world \<Rightarrow> string \<Rightarrow> string \<Rightarrow> py_error + string" where
  "ipmitool w hostname cmd =
     (case ipmi_password w of
        Inl e \<Rightarrow> Inl e
      | Inr password \<Rightarrow>
          c_run w (''ipmitool -I lanplus -H '' @ hostname @ '' -U ADMIN -P '' @ [CHR 0x27] @
                   password @ [CHR 0x27] @ '' '' @ cmd))"

text \<open>
  What the measurement does and prints, in order: the calls of \<^verbatim>\<open>ipmitool\<close> with the
  management hostname and the subcommand, the printed lines (the hostname, the empty
  lines), the line with a host's reading, and the two lines of the report, with the list
  of measured hosts and with the total.
\<close>

datatype power_event =
    Ipmitool string string
  | PrintLine string
  | PrintWatts string
  | PrintMeasured "string list"
  | PrintTotal int

text \<open>
  The parse of one host's output, the same in both loops but for the label:
  \<^verbatim>\<open>
  reading = [line for line in res.stdout.splitlines() if LABEL in line][0]
  reading = reading.strip().split(":")[1].strip().split(" ")[0]
  \<close>
  Indexing the empty list of matching lines, or a line without a colon, raises
  \<^verbatim>\<open>IndexError\<close>.
\<close>

definition read_power :: "world \<Rightarrow> string \<Rightarrow> string \<Rightarrow> py_error + string" where
  "read_power w label stdout =
     (case filter (contains label) (str_splitlines w stdout) of
        [] \<Rightarrow> Inl IndexError
      | reading # _ \<Rightarrow>
          (case split_on (CHR '':'') (str_strip w reading) of
             _ # field # _ \<Rightarrow>
               (case split_on (CHR '' '') (str_strip w field) of
                  [] \<Rightarrow> Inl IndexError
                | reading # _ \<Rightarrow> Inr reading)
           | _ \<Rightarrow> Inl IndexError))"

text \<open>
  One of the two loops of \<^verbatim>\<open>ipmi_powerconsumption\<close>, over the hosts of a manufacturer,
  with the subcommand and the label of that manufacturer; the state is \<^verbatim>\<open>total\<close> and
  \<^verbatim>\<open>hosts\<close>. An exception leaves the loop, and the task, at once: there is no handler.
  \<^verbatim>\<open>
  for hostname in MANUFACTURERS[...]:
      hosts += [hostname.split(".")[0]]
      hostname = mgmt_hostname(hostname)
      print(hostname)
      res = ipmitool(c, hostname, CMD)
      reading = ...
      total += int(reading)
      print(f"  {reading} Watts")
      print("")
  \<close>
\<close>

fun power_loop ::
  "world \<Rightarrow> string \<Rightarrow> string \<Rightarrow> string list \<Rightarrow> int \<times> string list \<Rightarrow>
     power_event list \<times> (py_error + int \<times> string list)" where
  "power_loop w cmd label [] (total_watts, hosts) = ([], Inr (total_watts, hosts))"
| "power_loop w cmd label (hostname # rest) (total_watts, hosts) =
     (let hosts = hosts @ [split_on (CHR ''.'') hostname ! 0];
          hostname = mgmt_hostname hostname
      in case ipmitool w hostname cmd of
           Inl e \<Rightarrow> ([PrintLine hostname, Ipmitool hostname cmd], Inl e)
         | Inr stdout \<Rightarrow>
             (case read_power w label stdout of
                Inl e \<Rightarrow> ([PrintLine hostname, Ipmitool hostname cmd], Inl e)
              | Inr reading \<Rightarrow>
                  (case int_of_str w reading of
                     Inl e \<Rightarrow> ([PrintLine hostname, Ipmitool hostname cmd], Inl e)
                   | Inr n \<Rightarrow>
                       (let (evs, res) = power_loop w cmd label rest (total_watts + n, hosts)
                        in ([PrintLine hostname, Ipmitool hostname cmd, PrintWatts reading,
                             PrintLine []] @ evs, res)))))"

text \<open>The Dell subcommand, \<^verbatim>\<open>sensor get Pwr\ Consumption\<close> with its backslash.\<close>

definition dell_cmd :: string where
  "dell_cmd = ''sensor get Pwr'' @ [CHR 0x5C] @ '' Consumption''"

text \<open>
  \<^verbatim>\<open>ipmi_powerconsumption(c)\<close>: the loop over \<^verbatim>\<open>MANUFACTURERS["dell"]\<close>, the loop over
  \<^verbatim>\<open>MANUFACTURERS["supermicro"]\<close>, then the report. No other group is read.
\<close>

definition ipmi_powerconsumption :: "world \<Rightarrow> power_event list \<times> (py_error + unit)" where
  "ipmi_powerconsumption w =
     (case map_of MANUFACTURERS ''dell'' of
        None \<Rightarrow> ([], Inl KeyError)
      | Some dell \<Rightarrow>
          (case power_loop w dell_cmd ''Sensor Reading'' dell (0, []) of
             (evs1, Inl e) \<Rightarrow> (evs1, Inl e)
           | (evs1, Inr st) \<Rightarrow>
               (case map_of MANUFACTURERS ''supermicro'' of
                  None \<Rightarrow> (evs1, Inl KeyError)
                | Some supermicro \<Rightarrow>
                    (case power_loop w ''dcmi power reading'' ''Instantaneous power reading:''
                            supermicro st of
                       (evs2, Inl e) \<Rightarrow> (evs1 @ evs2, Inl e)
                     | (evs2, Inr (total_watts, hosts)) \<Rightarrow>
                         (evs1 @ evs2 @
                            [PrintLine [], PrintMeasured hosts, PrintTotal total_watts, PrintLine []],
                          Inr ())))))"

section \<open>Helpers for stating and instantiating the theorems\<close>

text \<open>
  Simple built-ins for the examples: lines split at line feeds, spaces stripped, and
  integers written in decimal digits, as Python's built-ins behave on such strings.
\<close>

definition lf_lines :: "string \<Rightarrow> string list" where
  "lf_lines s = split_on (CHR 0x0A) s"

definition space_strip :: "string \<Rightarrow> string" where
  "space_strip s = rev (dropWhile (\<lambda>c. c = CHR '' '') (rev (dropWhile (\<lambda>c. c = CHR '' '') s)))"

fun digits_value :: "string \<Rightarrow> nat \<Rightarrow> nat option" where
  "digits_value [] acc = Some acc"
| "digits_value (c # cs) acc =
     (if CHR ''0'' \<le> c \<and> c \<le> CHR ''9''
      then digits_value cs (10 * acc + (of_char c - of_char (CHR ''0'')))
      else None)"

definition decimal_int :: "string \<Rightarrow> py_error + int" where
  "decimal_int s =
     (if s = [] then Inl ValueError
      else case digits_value s 0 of None \<Rightarrow> Inl ValueError | Some n \<Rightarrow> Inr (int n))"

text \<open>
  One host's measurement as a whole (the call, the parse and the conversion), and the
  reading it adds to the total.
\<close>

definition measure_host :: "world \<Rightarrow> string \<Rightarrow> string \<Rightarrow> string \<Rightarrow> py_error + string \<times> int" where
  "measure_host w cmd label hostname =
     (case ipmitool w (mgmt_hostname hostname) cmd of
        Inl e \<Rightarrow> Inl e
      | Inr stdout \<Rightarrow>
          (case read_power w label stdout of
             Inl e \<Rightarrow> Inl e
           | Inr reading \<Rightarrow>
               (case int_of_str w reading of Inl e \<Rightarrow> Inl e | Inr n \<Rightarrow> Inr (reading, n))))"

definition reading_of :: "world \<Rightarrow> string \<Rightarrow> string \<Rightarrow> string \<Rightarrow> int" where
  "reading_of w cmd label hostname =
     (case measure_host w cmd label hostname of Inl e \<Rightarrow> 0 | Inr (reading, n) \<Rightarrow> n)"

text \<open>The two lines of the final report.\<close>

fun is_report :: "power_event \<Rightarrow> bool" where
  "is_report (PrintMeasured ms) = True"
| "is_report (PrintTotal t) = True"
| "is_report _ = False"

text \<open>The hosts of a manufacturer group, and the first label of a hostname.\<close>

definition hosts_of :: "string \<Rightarrow> string list" where
  "hosts_of g = (case map_of MANUFACTURERS g of None \<Rightarrow> [] | Some hs \<Rightarrow> hs)"

definition first_label :: "string \<Rightarrow> string" where
  "first_label hostname = split_on (CHR ''.'') hostname ! 0"

text \<open>
  Example worlds: every command succeeds and prints what \<open>answer\<close> says. In
  \<open>ryan_unreadable\<close> and \<open>graham_unreadable\<close> the management controller of one Dell host
  prints a text without the label, and every other host prints a Dell reading of 140.
\<close>

definition answers :: "(string \<Rightarrow> string) \<Rightarrow> world" where
  "answers answer =
     \<lparr>c_run = (\<lambda>cmd. Inr (answer cmd)),
      str_splitlines = lf_lines, str_strip = space_strip, int_of_str = decimal_int\<rparr>"

definition ryan_unreadable :: world where
  "ryan_unreadable =
     answers (\<lambda>cmd. if prefix ''sops '' cmd then ''secret''
                     else if prefix ''ipmitool -I lanplus -H ryan-mgmt.'' cmd then ''no data''
                     else '' Sensor Reading        : 140 (+/- 0) Watts'')"

definition graham_unreadable :: world where
  "graham_unreadable =
     answers (\<lambda>cmd. if prefix ''sops '' cmd then ''secret''
                     else if prefix ''ipmitool -I lanplus -H graham-mgmt.'' cmd then ''no data''
                     else '' Sensor Reading        : 140 (+/- 0) Watts'')"

section \<open>get_lldp_neighbors\<close>

text \<open>
  The outside world of the LLDP collection: the working directory \<^verbatim>\<open>os.getcwd()\<close>
  returns, whether \<^verbatim>\<open>os.path.exists("lldp")\<close> holds, and the exit status of the local
  script for each command line.
\<close>

record lldp_world =
  getcwd :: string
  lldp_exists :: bool
  script_rc :: "string \<Rightarrow> int"

text \<open>The callback \<^verbatim>\<open>doc_tum(h)\<close>: one checked local command.\<close>

definition doc_tum :: "lldp_world \<Rightarrow> DeployHost \<Rightarrow> event list \<times> (py_error + unit)" where
  "doc_tum w h =
     ([RunLocal (host h) (''../../get-lldp-neighbors.sh '' @ host h)],
      if script_rc w (''../../get-lldp-neighbors.sh '' @ host h) \<noteq> 0
      then Inl CalledProcessError else Inr ())"

text \<open>
  \<^verbatim>\<open>get_lldp_neighbors(hosts)\<close>. The group is built from the global \<^verbatim>\<open>HOSTS\<close>:
  \<^verbatim>\<open>tum = DeployGroup([DeployHost(h, user="root") for h in HOSTS])\<close>; the parameter is
  not read. The callbacks run in one thread per host, under a schedule as in
  \<open>deploy_nixos\<close>; \<^verbatim>\<open>run_function\<close> raises when a callback raised, which leaves the
  function before the graph is generated and the directory removed.
\<close>

definition get_lldp_neighbors ::
  "string list \<Rightarrow> lldp_world \<Rightarrow> nat list \<Rightarrow> event list \<times> (py_error + unit)" where
  "get_lldp_neighbors hosts w sched =
     (let tum = map root_host HOSTS;
          pwd = getcwd w;
          runs = map (doc_tum w) tum;
          before = [Chdir ''docs/hosts''] @ (if \<not> lldp_exists w then [Mkdir ''lldp''] else []) @
                   [Chdir ''lldp''] @ interleave sched (map fst runs)
      in if list_ex isl (map snd runs) then (before, Inl HostsFailed)
         else (before @ [System ''../../generate-lldp-graph.sh'', Chdir ''..'', Rmtree ''lldp'',
                         Chdir pwd], Inr ()))"

text \<open>
  The task \<^verbatim>\<open>update_lldp_info(c, hosts)\<close>: the comma-separated argument, or \<^verbatim>\<open>HOSTS\<close>
  when it is empty, is passed on.
\<close>

definition update_lldp_info ::
  "string \<Rightarrow> lldp_world \<Rightarrow> nat list \<Rightarrow> event list \<times> (py_error + unit)" where
  "update_lldp_info hosts w sched =
     (let host_list = (if hosts \<noteq> [] then split_on (CHR '','') hosts else HOSTS)
      in get_lldp_neighbors host_list w sched)"

fun is_run_local :: "event \<Rightarrow> bool" where
  "is_run_local (RunLocal h cmd) = True"
| "is_run_local _ = False"

section \<open>Temporary directories for staged keys\<close>

text \<open>
  The file system as a map from paths to directories and files with their contents, and
  a computation as a function from the file system to its outcome, an exception or a
  value, and the file system it leaves.
\<close>

datatype node = Dir | File string

type_synonym fs = "string \<rightharpoonup> node"

type_synonym 'a io = "fs \<Rightarrow> (py_error + 'a) \<times> fs"

text \<open>
  The outside world of the key tasks: \<open>sh cmd\<close> is what the shell command does, its exit
  status, its standard output and its effect on the file system, which may be any;
  \<open>json_dumps\<close> stands for \<^verbatim>\<open>json.dumps\<close>.
\<close>

record shell =
  sh :: "string \<Rightarrow> fs \<Rightarrow> (int \<times> string) \<times> fs"
  json_dumps :: "string \<Rightarrow> string"

text \<open>Sequencing: an exception ends the computation with the file system as it is.\<close>

definition io_return :: "'a \<Rightarrow> 'a io" where
  "io_return x fs = (Inr x, fs)"

definition io_bind :: "'a io \<Rightarrow> ('a \<Rightarrow> 'b io) \<Rightarrow> 'b io" where
  "io_bind m f fs = (case m fs of (Inl e, fs') \<Rightarrow> (Inl e, fs') | (Inr x, fs') \<Rightarrow> f x fs')"

text \<open>
  \<^verbatim>\<open>c.run(cmd, warn=...)\<close>: a non-zero exit status raises unless \<^verbatim>\<open>warn=True\<close>.
  \<^verbatim>\<open>Path.read_text\<close>, \<^verbatim>\<open>Path.write_text\<close> into a directory, and \<^verbatim>\<open>os.mkdir\<close> of a
  name in a parent directory.
\<close>

definition c_run_sh :: "shell \<Rightarrow> bool \<Rightarrow> string \<Rightarrow> string io" where
  "c_run_sh w warn cmd fs =
     (case sh w cmd fs of
        ((rc, stdout), fs') \<Rightarrow>
          (if rc \<noteq> 0 \<and> \<not> warn then (Inl UnexpectedExit, fs') else (Inr stdout, fs')))"

definition read_text :: "string \<Rightarrow> string io" where
  "read_text p fs = (case fs p of Some (File s) \<Rightarrow> (Inr s, fs) | _ \<Rightarrow> (Inl FileNotFoundError, fs))"

definition write_text :: "string \<Rightarrow> string \<Rightarrow> string \<Rightarrow> unit io" where
  "write_text dir name s fs =
     (case fs dir of
        Some Dir \<Rightarrow> (Inr (), fs(dir @ ''/'' @ name \<mapsto> File s))
      | _ \<Rightarrow> (Inl FileNotFoundError, fs))"

definition os_mkdir :: "string \<Rightarrow> string \<Rightarrow> unit io" where
  "os_mkdir parent name fs =
     (case fs (parent @ ''/'' @ name) of
        Some n \<Rightarrow> (Inl FileExistsError, fs)
      | None \<Rightarrow>
          (case fs parent of
             Some Dir \<Rightarrow> (Inr (), fs(parent @ ''/'' @ name \<mapsto> Dir))
           | _ \<Rightarrow> (Inl FileNotFoundError, fs)))"

text \<open>
  \<^verbatim>\<open>with tempfile.TemporaryDirectory() as tmpdir:\<close> creates the directory, runs the body
  and, however the body ends, removes the directory and everything under it. \<open>tmpdir\<close>
  is the path \<^verbatim>\<open>mkdtemp\<close> chose.
\<close>

definition under :: "string \<Rightarrow> string \<Rightarrow> bool" where
  "under d p = (p = d \<or> prefix (d @ ''/'') p)"

definition cleanup :: "string \<Rightarrow> fs \<Rightarrow> fs" where
  "cleanup d fs = (\<lambda>p. if under d p then None else fs p)"

definition with_TemporaryDirectory :: "string \<Rightarrow> (string \<Rightarrow> 'a io) \<Rightarrow> 'a io" where
  "with_TemporaryDirectory tmpdir body fs =
     (case body tmpdir (fs(tmpdir \<mapsto> Dir)) of (r, fs') \<Rightarrow> (r, cleanup tmpdir fs'))"

text \<open>The single and the double quote of the command lines.\<close>

definition sq :: string where "sq = [CHR 0x27]"

definition dq :: string where "dq = [CHR 0x22]"

text \<open>
  \<^verbatim>\<open>generate_ssh_cert(c, host)\<close>, lines 479 to 521. \<open>stage_host_key\<close> is the body of its
  loop over the key types \<open>rsa\<close> and \<open>ed25519\<close>: the public key is read from the secrets
  file; when there is none a key pair is generated in the staging directory and stored
  in the secrets file, otherwise the public key is written into the staging directory.
  \<^verbatim>\<open>os.umask\<close> touches no file and is left out.
\<close>

definition stage_host_key :: "shell \<Rightarrow> string \<Rightarrow> string \<Rightarrow> string \<Rightarrow> string \<Rightarrow> unit io" where
  "stage_host_key w sops_file host_arg tmpdir keytype =
     io_bind (c_run_sh w True
                (''sops --extract '' @ sq @ ''['' @ dq @ ''ssh_host_'' @ keytype @ ''_key.pub'' @ dq @
                 '']'' @ sq @ '' -d '' @ sops_file))
       (\<lambda>stdout.
          let privkey = tmpdir @ ''/etc/ssh/ssh_host_'' @ keytype @ ''_key'';
              pubkey = tmpdir @ ''/etc/ssh/ssh_host_'' @ keytype @ ''_key.pub''
          in if length stdout = 0
             then
               io_bind (c_run_sh w False
                          (''ssh-keygen -f '' @ privkey @ '' -t '' @ keytype @ '' -C '' @ sq @
                           ''host key for host '' @ host_arg @ sq @ '' -N '' @ sq @ sq))
                 (\<lambda>_. io_bind (read_text privkey)
                 (\<lambda>priv. io_bind (c_run_sh w False
                          (''sops --set '' @ sq @ ''['' @ dq @ ''ssh_host_'' @ keytype @ ''_key'' @ dq @
                           ''] '' @ json_dumps w priv @ sq @ '' '' @ sops_file))
                 (\<lambda>_. io_bind (read_text pubkey)
                 (\<lambda>pub. io_bind (c_run_sh w False
                          (''sops --set '' @ sq @ ''['' @ dq @ ''ssh_host_'' @ keytype @ ''_key.pub'' @
                           dq @ ''] '' @ json_dumps w pub @ sq @ '' '' @ sops_file))
                 (\<lambda>_. io_return ())))))
             else write_text (tmpdir @ ''/etc/ssh'') (''ssh_host_'' @ keytype @ ''_key.pub'') stdout)"

definition generate_ssh_cert :: "shell \<Rightarrow> string \<Rightarrow> string \<Rightarrow> string \<Rightarrow> unit io" where
  "generate_ssh_cert w ROOT host_arg tmp =
     (let h = host_arg;
          sops_file = ROOT @ ''/hosts/'' @ host_arg @ ''.yml''
      in with_TemporaryDirectory tmp
           (\<lambda>tmpdir.
              io_bind (c_run_sh w False (''mkdir -p '' @ tmpdir @ ''/etc/ssh''))
              (\<lambda>_. io_bind (stage_host_key w sops_file host_arg tmpdir ''rsa'')
              (\<lambda>_. io_bind (stage_host_key w sops_file host_arg tmpdir ''ed25519'')
              (\<lambda>_. io_bind (c_run_sh w False
                       (''sops --extract '' @ sq @ ''['' @ dq @ ''ssh-ca'' @ dq @ '']'' @ sq @ '' -d '' @
                        ROOT @ ''/modules/sshd/ca-keys.yml > '' @ tmpdir @ ''/ssh-ca''))
              (\<lambda>_. let valid_hostnames = h @ ''.r,'' @ h @ ''.dse.in.tum.de,'' @ h @ ''.thalheim.io'';
                        pubkey_path = tmpdir @ ''/etc/ssh/ssh_host_ed25519_key.pub''
                    in io_bind (c_run_sh w False
                         (''ssh-keygen -h -s '' @ tmpdir @ ''/ssh-ca -n '' @ valid_hostnames @
                          '' -I '' @ h @ '' '' @ pubkey_path))
              (\<lambda>_. let signed_key_src = tmpdir @ ''/etc/ssh/ssh_host_ed25519_key-cert.pub'';
                        signed_key_dst = ROOT @ ''/modules/sshd/certs/'' @ host_arg @ ''-cert.pub''
                    in io_bind (c_run_sh w False (''mv '' @ signed_key_src @ '' '' @ signed_key_dst))
              (\<lambda>_. io_return ()))))))))"

text \<open>
  \<^verbatim>\<open>decrypt_host_keys(c, host, tmpdir)\<close> and \<^verbatim>\<open>reformat_install_nixos(c, host,
  dhcp_interface)\<close>, lines 401 to 430: the four host keys are decrypted into the staging
  directory, which is handed to the installer.
\<close>

fun decrypt_keys :: "shell \<Rightarrow> string \<Rightarrow> string \<Rightarrow> string \<Rightarrow> string list \<Rightarrow> unit io" where
  "decrypt_keys w ROOT host_arg tmpdir [] = io_return ()"
| "decrypt_keys w ROOT host_arg tmpdir (keyname # keynames) =
     io_bind (c_run_sh w False
                (''sops --extract '' @ sq @ ''['' @ dq @ keyname @ dq @ '']'' @ sq @ '' -d '' @ ROOT @
                 ''/hosts/'' @ host_arg @ ''.yml > '' @ tmpdir @ ''/etc/ssh/'' @ keyname))
       (\<lambda>_. decrypt_keys w ROOT host_arg tmpdir keynames)"

definition decrypt_host_keys :: "shell \<Rightarrow> string \<Rightarrow> string \<Rightarrow> string \<Rightarrow> unit io" where
  "decrypt_host_keys w ROOT host_arg tmpdir =
     io_bind (os_mkdir tmpdir ''etc'')
       (\<lambda>_. io_bind (os_mkdir (tmpdir @ ''/etc'') ''ssh'')
       (\<lambda>_. decrypt_keys w ROOT host_arg tmpdir
               [''ssh_host_rsa_key'', ''ssh_host_rsa_key.pub'', ''ssh_host_ed25519_key'',
                ''ssh_host_ed25519_key.pub'']))"

definition reformat_install_nixos ::
  "shell \<Rightarrow> string \<Rightarrow> string \<Rightarrow> string \<Rightarrow> string \<Rightarrow> unit io" where
  "reformat_install_nixos w ROOT host_arg dhcp_interface tmp =
     with_TemporaryDirectory tmp
       (\<lambda>tmpdir.
          io_bind (decrypt_host_keys w ROOT host_arg tmpdir)
          (\<lambda>_. let nixos_remote_pxe =
                     ''sudo -E PYTHONPATH=$PYTHONPATH PATH=$PATH python3 /home/okelmann/nixos-anywhere/nixos-anywhere-pxe.py''
                in io_bind (c_run_sh w False
                     (nixos_remote_pxe @ '' --flake .#'' @ host_arg @ '' --netboot-image-flake '' @ sq @
                      ''github:nix-community/nixos-images#netboot-installer-nixos-unstable'' @ sq @
                      '' --dhcp-interface '' @ dhcp_interface @ '' --extra-files '' @ tmpdir @
                      '' --no-reboot --pause-after-completion''))
          (\<lambda>_. io_return ())))"

text \<open>Something is left at or under the path.\<close>

definition staged :: "string \<Rightarrow> fs \<Rightarrow> bool" where
  "staged d fs = (\<exists>p. under d p \<and> fs p \<noteq> None)"

text \<open>
  An example shell: every command leaves the directory \<open>/tmp/tmpx/etc/ssh\<close> with the
  four host key files in it, and fails when its command line contains \<open>failing\<close>.
\<close>

definition leaky_shell :: "string \<Rightarrow> shell" where
  "leaky_shell failing =
     \<lparr>sh = (\<lambda>cmd fs.
              ((if contains failing cmd then 1 else 0, []),
               fs(''/tmp/tmpx/etc/ssh'' \<mapsto> Dir,
                  ''/tmp/tmpx/etc/ssh/ssh_host_rsa_key'' \<mapsto> File ''RSA PRIVATE KEY'',
                  ''/tmp/tmpx/etc/ssh/ssh_host_rsa_key.pub'' \<mapsto> File ''ssh-rsa AAAA'',
                  ''/tmp/tmpx/etc/ssh/ssh_host_ed25519_key'' \<mapsto> File ''ED25519 PRIVATE KEY'',
                  ''/tmp/tmpx/etc/ssh/ssh_host_ed25519_key.pub'' \<mapsto> File ''ssh-ed25519 AAAA''))),
      json_dumps = (\<lambda>s. dq @ s @ dq)\<rparr>"

section \<open>Facts about splitting and joining\<close>

lemma split_on_not_Nil: "split_on c s \<noteq> []"
  by (induction s) (auto split: list.splits)

lemma split_on_no_sep: "x \<in> set (split_on c s) \<Longrightarrow> c \<notin> set x"
proof (induction s arbitrary: x)
  case Nil
  then show ?case by simp
next
  case (Cons a s)
  then show ?case
    by (cases "split_on c s") (auto simp: split_on_not_Nil split: if_splits)
qed

lemma split_on_free: "c \<notin> set s \<Longrightarrow> split_on c s = [s]"
  by (induction s) auto

lemma split_on_append_sep:
  "c \<notin> set x \<Longrightarrow> split_on c (x @ c # r) = x # split_on c r"
  by (induction x) auto

lemma split_on_join:
  "xs \<noteq> [] \<Longrightarrow> \<forall>x\<in>set xs. c \<notin> set x \<Longrightarrow> split_on c (join [c] xs) = xs"
proof (induction "[c]" xs rule: join.induct)
  case 1
  then show ?case by simp
next
  case (2 x)
  then show ?case by (simp add: split_on_free)
next
  case (3 x y ys)
  then show ?case by (simp add: split_on_append_sep)
qed

section \<open>The management hostname changes the first label only\<close>

text \<open>
  Claim C5. The management hostname is the hostname with \<open>-mgmt\<close> appended to its first
  dot-delimited label and every other label unchanged: splitting the result at the dots
  gives the first label of the input followed by \<open>-mgmt\<close>, then the remaining labels of
  the input as they were. For \<open>ryan.dse.in.tum.de\<close> it is \<open>ryan-mgmt.dse.in.tum.de\<close>.
\<close>

theorem mgmt_hostname_first_label_only:
  "mgmt_hostname ''ryan.dse.in.tum.de'' = ''ryan-mgmt.dse.in.tum.de'' \<and>
   split_on (CHR ''.'') (mgmt_hostname h) =
     (hd (split_on (CHR ''.'') h) @ ''-mgmt'') # tl (split_on (CHR ''.'') h)"
proof
  show "mgmt_hostname ''ryan.dse.in.tum.de'' = ''ryan-mgmt.dse.in.tum.de''"
    by (simp add: mgmt_hostname_def)
next
  obtain l ls where sp: "split_on (CHR ''.'') h = l # ls"
    by (cases "split_on (CHR ''.'') h") (simp_all add: split_on_not_Nil)
  have nodot: "\<forall>x\<in>set (l # ls). CHR ''.'' \<notin> set x"
    using split_on_no_sep [of _ "CHR ''.''" h] sp by metis
  then have "\<forall>x\<in>set ((l @ ''-mgmt'') # ls). CHR ''.'' \<notin> set x"
    by simp
  then have "split_on (CHR ''.'') (join [CHR ''.''] ((l @ ''-mgmt'') # ls)) = (l @ ''-mgmt'') # ls"
    by (intro split_on_join) simp_all
  then show "split_on (CHR ''.'') (mgmt_hostname h) =
     (hd (split_on (CHR ''.'') h) @ ''-mgmt'') # tl (split_on (CHR ''.'') h)"
    by (simp add: mgmt_hostname_def sp)
qed

section \<open>The activation is retried once, by the host's own callback\<close>

text \<open>
  Claim C1, as the code has it. For a host whose file sync returned status 0, the
  activation command is issued once with \<^verbatim>\<open>check=False\<close>; it is issued a second time,
  for the same host and with the same argument vector, exactly when the first attempt
  returned a non-zero status, and never a third time. The callback ends in success when
  the first attempt or the retry returned 0, and in failure when both returned a
  non-zero status.
\<close>

theorem deploy_retries_once:
  assumes "run_local_rc env (rsync_cmd path h) = 0"
  shows "activations (fst (deploy path h env)) =
           (if run_rc env 0 (switch_cmd h) \<noteq> 0
            then [Run (host h) (switch_cmd h) False (run_rc env 0 (switch_cmd h)),
                  Run (host h) (switch_cmd h) True (run_rc env 1 (switch_cmd h))]
            else [Run (host h) (switch_cmd h) False 0])
       \<and> snd (deploy path h env) =
           (if run_rc env 0 (switch_cmd h) = 0 \<or> run_rc env 1 (switch_cmd h) = 0 then Inr ()
            else Inl CalledProcessError)"
  using assms by (simp add: deploy_def activations_def Let_def)

theorem deploy_retries_once_witness:
  "activations (fst (deploy ''/nix/store/src'' (root_host ''ryan.dse.in.tum.de'') (env_of 0 1 0)))
     = [Run ''ryan.dse.in.tum.de'' (switch_cmd (root_host ''ryan.dse.in.tum.de'')) False 1,
        Run ''ryan.dse.in.tum.de'' (switch_cmd (root_host ''ryan.dse.in.tum.de'')) True 0]
   \<and> snd (deploy ''/nix/store/src'' (root_host ''ryan.dse.in.tum.de'') (env_of 0 1 0)) = Inr ()
   \<and> snd (deploy ''/nix/store/src'' (root_host ''ryan.dse.in.tum.de'') (env_of 0 1 1))
       = Inl CalledProcessError
   \<and> activations (fst (deploy ''/nix/store/src'' (root_host ''ryan.dse.in.tum.de'') (env_of 0 0 1)))
     = [Run ''ryan.dse.in.tum.de'' (switch_cmd (root_host ''ryan.dse.in.tum.de'')) False 0]"
  using deploy_retries_once [of "env_of 0 1 0" "''/nix/store/src''" "root_host ''ryan.dse.in.tum.de''"]
    deploy_retries_once [of "env_of 0 1 1" "''/nix/store/src''" "root_host ''ryan.dse.in.tum.de''"]
    deploy_retries_once [of "env_of 0 0 1" "''/nix/store/src''" "root_host ''ryan.dse.in.tum.de''"]
  by (simp add: env_of_def root_host_def)


text \<open>
  Claim C1, as stated for every host, fails: a host whose rsync returns a non-zero
  status leaves the callback at the rsync, and the activation is not attempted at all.
\<close>

theorem no_activation_after_failed_sync_counterexample:
  "\<not> list_ex is_first_attempt
       (fst (deploy ''/nix/store/src'' (root_host ''ryan.dse.in.tum.de'') (env_of 1 0 0)))
   \<and> activations
       (fst (deploy ''/nix/store/src'' (root_host ''ryan.dse.in.tum.de'') (env_of 1 0 0))) = []"
  by (simp add: deploy_def env_of_def activations_def)

lemma retry_justified_mono:
  "retry_justified seen e \<Longrightarrow> set seen \<subseteq> set seen' \<Longrightarrow> retry_justified seen' e"
  by (cases e) (force simp: list_ex_iff split: if_splits)+

lemma retry_after_own_first_mono:
  "retry_after_own_first seen es \<Longrightarrow> set seen \<subseteq> set seen' \<Longrightarrow>
   retry_after_own_first seen' es"
proof (induction es arbitrary: seen seen')
  case Nil
  then show ?case by simp
next
  case (Cons e es)
  from Cons.prems have "retry_after_own_first (e # seen) es" by simp
  moreover from Cons.prems have "set (e # seen) \<subseteq> set (e # seen')" by auto
  ultimately have "retry_after_own_first (e # seen') es" by (rule Cons.IH)
  moreover from Cons.prems have "retry_justified seen' e"
    by (auto intro: retry_justified_mono)
  ultimately show ?case by simp
qed

lemma retry_after_own_first_append:
  "retry_after_own_first seen xs \<Longrightarrow> retry_after_own_first seen ys \<Longrightarrow>
   retry_after_own_first seen (xs @ ys)"
proof (induction xs arbitrary: seen)
  case Nil
  then show ?case by simp
next
  case (Cons e xs)
  from Cons.prems(2) have "retry_after_own_first (e # seen) ys"
    by (rule retry_after_own_first_mono) auto
  with Cons show ?case by simp
qed

lemma retry_after_own_first_concat:
  "\<forall>ts\<in>set tss. retry_after_own_first seen ts \<Longrightarrow> retry_after_own_first seen (concat tss)"
  by (induction tss) (simp_all add: retry_after_own_first_append)

lemma retry_after_own_first_interleave:
  "\<forall>ts\<in>set tss. retry_after_own_first seen ts \<Longrightarrow>
   retry_after_own_first seen (interleave sched tss)"
proof (induction sched tss arbitrary: seen rule: interleave.induct)
  case (1 tss)
  then show ?case by (simp add: retry_after_own_first_concat)
next
  case (2 i sched tss)
  show ?case
  proof (cases "i < length tss")
    case False
    with 2 show ?thesis by simp
  next
    case True
    show ?thesis
    proof (cases "tss ! i")
      case Nil
      with True 2 show ?thesis by simp
    next
      case (Cons e es)
      from True Cons "2.prems" have hd: "retry_after_own_first seen (e # es)"
        by (metis nth_mem)
      have "\<forall>ts\<in>set (tss[i := es]). retry_after_own_first (e # seen) ts"
      proof
        fix ts assume "ts \<in> set (tss[i := es])"
        then have "ts = es \<or> ts \<in> set tss"
          using set_update_subset_insert by fastforce
        then show "retry_after_own_first (e # seen) ts"
        proof
          assume "ts = es"
          with hd show ?thesis by simp
        next
          assume "ts \<in> set tss"
          with "2.prems" have "retry_after_own_first seen ts" by simp
          then show ?thesis by (rule retry_after_own_first_mono) auto
        qed
      qed
      then have "retry_after_own_first (e # seen) (interleave sched (tss[i := es]))"
        using "2.IH"(2) True Cons by simp
      with hd True Cons show ?thesis by simp
    qed
  qed
qed

lemma deploy_retry_after_own_first: "retry_after_own_first seen (fst (deploy path h env))"
  by (simp add: deploy_def Let_def)

text \<open>
  Claim C2, as the code has it. The retry is a step of the host's own callback: in every
  run of a deployment, under every schedule of the hosts' threads, each retry comes
  after a first attempt of the same command on the same host that returned a non-zero
  status. Nothing orders it after the first attempts on other hosts.
\<close>

theorem retry_follows_own_failed_first_attempt:
  "retry_after_own_first [] (fst (deploy_nixos metadata hosts sched))"
proof (cases metadata)
  case (Inl e)
  then show ?thesis by (simp add: deploy_nixos_def)
next
  case (Inr path)
  have "\<forall>ts\<in>set (map fst (map (\<lambda>(h, env). deploy path h env) hosts)).
          retry_after_own_first [Subprocess nix_flake_metadata] ts"
    by (auto simp: deploy_retry_after_own_first)
  then show ?thesis
    using Inr by (simp add: deploy_nixos_def retry_after_own_first_interleave)
qed


text \<open>
  Claim C2, as stated, fails. With two hosts, the first of which fails its first
  attempt, and a schedule in which the first host's thread takes its three steps before
  the second host's thread takes any, the retry on the first host is issued before the
  first attempt on the second.
\<close>

theorem retries_interleave_counterexample:
  "\<not> second_pass_only (fst (deploy_nixos (Inr ''/nix/store/src'')
        [(root_host ''ryan.dse.in.tum.de'', env_of 0 1 0),
         (root_host ''graham.dse.in.tum.de'', env_of 0 0 0)] [0, 0, 0, 1, 1]))"
  by (simp add: deploy_nixos_def deploy_def env_of_def root_host_def Let_def)


section \<open>The order of a deployment's steps\<close>

lemma subseq_concat_member: "ts \<in> set tss \<Longrightarrow> subseq ts (concat tss)"
proof (induction tss)
  case Nil
  then show ?case by simp
next
  case (Cons a tss)
  then show ?case
    by (auto intro: list_emb_append2 simp: subseq_append')
qed

lemma subseq_interleave: "ts \<in> set tss \<Longrightarrow> subseq ts (interleave sched tss)"
proof (induction sched tss arbitrary: ts rule: interleave.induct)
  case (1 tss)
  then show ?case by (simp add: subseq_concat_member)
next
  case (2 i sched tss)
  show ?case
  proof (cases "i < length tss")
    case False
    with 2 show ?thesis by simp
  next
    case True
    show ?thesis
    proof (cases "tss ! i")
      case Nil
      with True 2 show ?thesis by simp
    next
      case (Cons e es)
      have IH: "\<And>us. us \<in> set (tss[i := es]) \<Longrightarrow> subseq us (interleave sched (tss[i := es]))"
        using "2.IH"(2) True Cons by simp
      from "2.prems" obtain j where j: "j < length tss" "tss ! j = ts"
        by (auto simp: in_set_conv_nth)
      show ?thesis
      proof (cases "j = i")
        case True
        with j Cons have ts: "ts = e # es" by simp
        have "es \<in> set (tss[i := es])"
          using \<open>i < length tss\<close> by (simp add: set_update_memI)
        then have "subseq es (interleave sched (tss[i := es]))" by (rule IH)
        with ts \<open>i < length tss\<close> Cons show ?thesis by simp
      next
        case False
        with j have "ts \<in> set (tss[i := es])"
          by (metis length_list_update nth_list_update_neq nth_mem)
        then have "subseq ts (interleave sched (tss[i := es]))" by (rule IH)
        then have "subseq ts (e # interleave sched (tss[i := es]))" by (rule list_emb_Cons)
        with \<open>i < length tss\<close> Cons show ?thesis by simp
      qed
    qed
  qed
qed

lemma mset_concat_update:
  "i < length tss \<Longrightarrow> tss ! i = e # es \<Longrightarrow>
   add_mset e (mset (concat (tss[i := es]))) = mset (concat tss)"
proof (induction tss arbitrary: i)
  case Nil
  then show ?case by simp
next
  case (Cons a tss)
  then show ?case by (cases i) auto
qed

lemma mset_interleave: "mset (interleave sched tss) = mset (concat tss)"
proof (induction sched tss rule: interleave.induct)
  case (1 tss)
  then show ?case by simp
next
  case (2 i sched tss)
  then show ?case
    by (auto simp: mset_concat_update split: list.splits)
qed

lemma deploy_no_metadata: "e \<in> set (fst (deploy path h env)) \<Longrightarrow> \<not> is_metadata e"
  by (auto simp: deploy_def Let_def split: if_splits)

lemma interleave_no_metadata:
  assumes "\<forall>ts\<in>set tss. \<forall>e\<in>set ts. \<not> is_metadata e"
  shows "\<forall>e\<in>set (interleave sched tss). \<not> is_metadata e"
proof -
  have "set (interleave sched tss) = set (concat tss)"
    using mset_interleave [of sched tss] by (metis set_mset_mset)
  with assms show ?thesis by auto
qed


lemma deploy_events_of_host:
  "if run_local_rc env (rsync_cmd path h) = 0
   then prefix [RunLocal (host h) (rsync_cmd path h),
                Run (host h) (switch_cmd h) False (run_rc env 0 (switch_cmd h))]
          (fst (deploy path h env))
   else fst (deploy path h env) = [RunLocal (host h) (rsync_cmd path h)]"
  by (simp add: deploy_def Let_def)

lemma rsync_cmd_unfolded:
  "rsync_cmd path h =
     ''rsync --checksum -vaF --delete -e ssh '' @ path @ ''/ '' @
       (case user h of None \<Rightarrow> ''root'' | Some u \<Rightarrow> (if u = [] then ''root'' else u)) @
       ''@'' @ host h @ '':'' @
       (case meta h ''flake_path'' of None \<Rightarrow> ''/etc/nixos'' | Some p \<Rightarrow> p)"
  by (simp add: rsync_cmd_def target_def meta_flake_path_def)

lemma switch_cmd_prefix: "prefix [''nixos-rebuild'', ''switch''] (switch_cmd h)"
  by (simp add: switch_cmd_def Let_def split: option.splits)

text \<open>
  Claim C6, as the code has it. Every run of a deployment starts with the one
  \<^verbatim>\<open>nix flake metadata --json\<close> call, and no other such call follows it. When it yields a
  path, the rest of the run consists of the events of the hosts' callbacks and of
  nothing else, each callback's events in their own order under every schedule. A
  callback first runs, locally, the rsync with \<open>--checksum\<close> and \<open>--delete\<close> from the
  resolved path to the flake path on the host; when the rsync returned 0 its next step
  is the first attempt of \<open>nixos-rebuild switch\<close>, and when the rsync returned a non-zero
  status the callback ends there, without an activation.
\<close>

theorem deploy_nixos_order:
  "\<exists>tr. fst (deploy_nixos metadata hosts sched)
            = Subprocess [''nix'', ''flake'', ''metadata'', ''--json''] # tr
      \<and> list_all (\<lambda>e. \<not> is_metadata e) tr
      \<and> (\<forall>path. metadata = Inr path \<longrightarrow>
           mset tr = mset (concat (map (\<lambda>(h, env). fst (deploy path h env)) hosts))
         \<and> (\<forall>(h, env)\<in>set hosts.
              subseq (fst (deploy path h env)) tr
            \<and> (if run_local_rc env (rsync_cmd path h) = 0
               then prefix [RunLocal (host h) (rsync_cmd path h),
                            Run (host h) (switch_cmd h) False (run_rc env 0 (switch_cmd h))]
                      (fst (deploy path h env))
               else fst (deploy path h env) = [RunLocal (host h) (rsync_cmd path h)])
            \<and> rsync_cmd path h =
                ''rsync --checksum -vaF --delete -e ssh '' @ path @ ''/ '' @
                  (case user h of None \<Rightarrow> ''root''
                   | Some u \<Rightarrow> (if u = [] then ''root'' else u)) @
                  ''@'' @ host h @ '':'' @
                  (case meta h ''flake_path'' of None \<Rightarrow> ''/etc/nixos'' | Some p \<Rightarrow> p)
            \<and> prefix [''nixos-rebuild'', ''switch''] (switch_cmd h)))"
proof (cases metadata)
  case (Inl e)
  then show ?thesis by (simp add: deploy_nixos_def nix_flake_metadata_def)
next
  case (Inr p)
  let ?tss = "map fst (map (\<lambda>(h, env). deploy p h env) hosts)"
  let ?tr = "interleave sched ?tss"
  have 1: "fst (deploy_nixos metadata hosts sched)
             = Subprocess [''nix'', ''flake'', ''metadata'', ''--json''] # ?tr"
    using Inr by (simp add: deploy_nixos_def nix_flake_metadata_def)
  have "\<forall>ts\<in>set ?tss. \<forall>e\<in>set ts. \<not> is_metadata e"
    by (auto dest: deploy_no_metadata)
  then have 2: "list_all (\<lambda>e. \<not> is_metadata e) ?tr"
    unfolding list_all_iff by (rule interleave_no_metadata)
  have "?tss = map (\<lambda>(h, env). fst (deploy p h env)) hosts"
    by (simp add: case_prod_unfold comp_def)
  then have 3: "mset ?tr = mset (concat (map (\<lambda>(h, env). fst (deploy p h env)) hosts))"
    by (simp only: mset_interleave)
  have 6: "\<forall>x\<in>set hosts. case x of (h, env) \<Rightarrow>
              subseq (fst (deploy p h env)) ?tr
            \<and> (if run_local_rc env (rsync_cmd p h) = 0
               then prefix [RunLocal (host h) (rsync_cmd p h),
                            Run (host h) (switch_cmd h) False (run_rc env 0 (switch_cmd h))]
                      (fst (deploy p h env))
               else fst (deploy p h env) = [RunLocal (host h) (rsync_cmd p h)])
            \<and> rsync_cmd p h =
                ''rsync --checksum -vaF --delete -e ssh '' @ p @ ''/ '' @
                  (case user h of None \<Rightarrow> ''root''
                   | Some u \<Rightarrow> (if u = [] then ''root'' else u)) @
                  ''@'' @ host h @ '':'' @
                  (case meta h ''flake_path'' of None \<Rightarrow> ''/etc/nixos'' | Some p \<Rightarrow> p)
            \<and> prefix [''nixos-rebuild'', ''switch''] (switch_cmd h)"
  proof
    fix x assume mem: "x \<in> set hosts"
    obtain h env where x: "x = (h, env)" by (cases x)
    from mem x have "fst (deploy p h env) \<in> set ?tss" by force
    then have "subseq (fst (deploy p h env)) ?tr" by (rule subseq_interleave)
    with deploy_events_of_host [of env p h] rsync_cmd_unfolded [of p h] switch_cmd_prefix [of h]
    show "case x of (h, env) \<Rightarrow>
              subseq (fst (deploy p h env)) ?tr
            \<and> (if run_local_rc env (rsync_cmd p h) = 0
               then prefix [RunLocal (host h) (rsync_cmd p h),
                            Run (host h) (switch_cmd h) False (run_rc env 0 (switch_cmd h))]
                      (fst (deploy p h env))
               else fst (deploy p h env) = [RunLocal (host h) (rsync_cmd p h)])
            \<and> rsync_cmd p h =
                ''rsync --checksum -vaF --delete -e ssh '' @ p @ ''/ '' @
                  (case user h of None \<Rightarrow> ''root''
                   | Some u \<Rightarrow> (if u = [] then ''root'' else u)) @
                  ''@'' @ host h @ '':'' @
                  (case meta h ''flake_path'' of None \<Rightarrow> ''/etc/nixos'' | Some p \<Rightarrow> p)
            \<and> prefix [''nixos-rebuild'', ''switch''] (switch_cmd h)"
      unfolding x prod.case by (intro conjI)
  qed
  show ?thesis
  proof (intro exI [of _ ?tr] conjI allI impI)
    show "fst (deploy_nixos metadata hosts sched)
            = Subprocess [''nix'', ''flake'', ''metadata'', ''--json''] # ?tr"
      by (rule 1)
    show "list_all (\<lambda>e. \<not> is_metadata e) ?tr" by (rule 2)
  next
    fix path assume "metadata = Inr path"
    with Inr have pp: "path = p" by simp
    show "mset ?tr = mset (concat (map (\<lambda>(h, env). fst (deploy path h env)) hosts))"
      unfolding pp by (rule 3)
    show "\<forall>(h, env)\<in>set hosts.
              subseq (fst (deploy path h env)) ?tr
            \<and> (if run_local_rc env (rsync_cmd path h) = 0
               then prefix [RunLocal (host h) (rsync_cmd path h),
                            Run (host h) (switch_cmd h) False (run_rc env 0 (switch_cmd h))]
                      (fst (deploy path h env))
               else fst (deploy path h env) = [RunLocal (host h) (rsync_cmd path h)])
            \<and> rsync_cmd path h =
                ''rsync --checksum -vaF --delete -e ssh '' @ path @ ''/ '' @
                  (case user h of None \<Rightarrow> ''root''
                   | Some u \<Rightarrow> (if u = [] then ''root'' else u)) @
                  ''@'' @ host h @ '':'' @
                  (case meta h ''flake_path'' of None \<Rightarrow> ''/etc/nixos'' | Some p \<Rightarrow> p)
            \<and> prefix [''nixos-rebuild'', ''switch''] (switch_cmd h)"
      unfolding pp by (rule 6)
  qed
qed

theorem deploy_nixos_order_witness:
  "\<exists>tr. fst (deploy_nixos (Inr ''/nix/store/src'')
               [(root_host ''ryan.dse.in.tum.de'', env_of 0 0 0)] [0])
            = Subprocess [''nix'', ''flake'', ''metadata'', ''--json''] # tr
      \<and> list_all (\<lambda>e. \<not> is_metadata e) tr
      \<and> subseq (fst (deploy ''/nix/store/src'' (root_host ''ryan.dse.in.tum.de'')
                      (env_of 0 0 0))) tr
      \<and> prefix [RunLocal (host (root_host ''ryan.dse.in.tum.de''))
                   (rsync_cmd ''/nix/store/src'' (root_host ''ryan.dse.in.tum.de'')),
                 Run (host (root_host ''ryan.dse.in.tum.de''))
                   (switch_cmd (root_host ''ryan.dse.in.tum.de'')) False
                   (run_rc (env_of 0 0 0) 0 (switch_cmd (root_host ''ryan.dse.in.tum.de'')))]
           (fst (deploy ''/nix/store/src'' (root_host ''ryan.dse.in.tum.de'') (env_of 0 0 0)))"
proof -
  have rc: "run_local_rc (env_of 0 0 0)
              (rsync_cmd ''/nix/store/src'' (root_host ''ryan.dse.in.tum.de'')) = 0"
    by (simp add: env_of_def)
  note t = deploy_nixos_order [of "Inr ''/nix/store/src''"
         "[(root_host ''ryan.dse.in.tum.de'', env_of 0 0 0)]" "[0]"]
  from t obtain tr where
    a: "fst (deploy_nixos (Inr ''/nix/store/src'')
               [(root_host ''ryan.dse.in.tum.de'', env_of 0 0 0)] [0])
            = Subprocess [''nix'', ''flake'', ''metadata'', ''--json''] # tr"
    and b: "list_all (\<lambda>e. \<not> is_metadata e) tr"
    and c: "\<forall>path. Inr ''/nix/store/src'' = (Inr path :: py_error + string) \<longrightarrow>
          mset tr = mset (concat (map (\<lambda>(h, env). fst (deploy path h env))
                      [(root_host ''ryan.dse.in.tum.de'', env_of 0 0 0)]))
        \<and> (\<forall>(h, env)\<in>set [(root_host ''ryan.dse.in.tum.de'', env_of 0 0 0)].
              subseq (fst (deploy path h env)) tr
            \<and> (if run_local_rc env (rsync_cmd path h) = 0
               then prefix [RunLocal (host h) (rsync_cmd path h),
                            Run (host h) (switch_cmd h) False (run_rc env 0 (switch_cmd h))]
                      (fst (deploy path h env))
               else fst (deploy path h env) = [RunLocal (host h) (rsync_cmd path h)])
            \<and> rsync_cmd path h =
                ''rsync --checksum -vaF --delete -e ssh '' @ path @ ''/ '' @
                  (case user h of None \<Rightarrow> ''root''
                   | Some u \<Rightarrow> (if u = [] then ''root'' else u)) @
                  ''@'' @ host h @ '':'' @
                  (case meta h ''flake_path'' of None \<Rightarrow> ''/etc/nixos'' | Some p \<Rightarrow> p)
            \<and> prefix [''nixos-rebuild'', ''switch''] (switch_cmd h))"
    by (elim exE conjE)
  from c have d: "(\<forall>(h, env)\<in>set [(root_host ''ryan.dse.in.tum.de'', env_of 0 0 0)].
              subseq (fst (deploy ''/nix/store/src'' h env)) tr
            \<and> (if run_local_rc env (rsync_cmd ''/nix/store/src'' h) = 0
               then prefix [RunLocal (host h) (rsync_cmd ''/nix/store/src'' h),
                            Run (host h) (switch_cmd h) False (run_rc env 0 (switch_cmd h))]
                      (fst (deploy ''/nix/store/src'' h env))
               else fst (deploy ''/nix/store/src'' h env)
                      = [RunLocal (host h) (rsync_cmd ''/nix/store/src'' h)])
            \<and> rsync_cmd ''/nix/store/src'' h =
                ''rsync --checksum -vaF --delete -e ssh '' @ ''/nix/store/src'' @ ''/ '' @
                  (case user h of None \<Rightarrow> ''root''
                   | Some u \<Rightarrow> (if u = [] then ''root'' else u)) @
                  ''@'' @ host h @ '':'' @
                  (case meta h ''flake_path'' of None \<Rightarrow> ''/etc/nixos'' | Some p \<Rightarrow> p)
            \<and> prefix [''nixos-rebuild'', ''switch''] (switch_cmd h))"
    by (rule allE [where x = "''/nix/store/src''"]) (erule impE, rule refl, erule conjunct2)
  have mem: "(root_host ''ryan.dse.in.tum.de'', env_of 0 0 0)
               \<in> set [(root_host ''ryan.dse.in.tum.de'', env_of 0 0 0)]"
    by simp
  note d' = bspec [OF d mem, unfolded prod.case]
  note e1 = d' [THEN conjunct1]
  note e2 = d' [THEN conjunct2, THEN conjunct1]
  from e2 rc have e3: "prefix [RunLocal (host (root_host ''ryan.dse.in.tum.de''))
                   (rsync_cmd ''/nix/store/src'' (root_host ''ryan.dse.in.tum.de'')),
                 Run (host (root_host ''ryan.dse.in.tum.de''))
                   (switch_cmd (root_host ''ryan.dse.in.tum.de'')) False
                   (run_rc (env_of 0 0 0) 0 (switch_cmd (root_host ''ryan.dse.in.tum.de'')))]
           (fst (deploy ''/nix/store/src'' (root_host ''ryan.dse.in.tum.de'') (env_of 0 0 0)))"
    by (simp only: if_True simp_thms)
  from a b e1 e3 show ?thesis by (intro exI [of _ tr] conjI)
qed

text \<open>
  Claim C6, as stated for each host, fails: for a host whose rsync returns a non-zero
  status the run holds the metadata call and the rsync and no activation command.
\<close>

theorem sync_failure_skips_activation_counterexample:
  "fst (deploy_nixos (Inr ''/nix/store/src'')
          [(root_host ''ryan.dse.in.tum.de'', env_of 1 0 0)] [])
     = [Subprocess [''nix'', ''flake'', ''metadata'', ''--json''],
        RunLocal ''ryan.dse.in.tum.de''
          ''rsync --checksum -vaF --delete -e ssh /nix/store/src/ root@ryan.dse.in.tum.de:/etc/nixos'']
   \<and> \<not> list_ex (\<lambda>e. is_first_attempt e \<or> is_retry e)
         (fst (deploy_nixos (Inr ''/nix/store/src'')
                [(root_host ''ryan.dse.in.tum.de'', env_of 1 0 0)] []))"
  by (simp add: deploy_nixos_def deploy_def env_of_def root_host_def nix_flake_metadata_def
        rsync_cmd_def target_def meta_flake_path_def)

section \<open>doc_cards pairs status lines and descriptions by position\<close>

lemma contains_after_check_mark:
  "contains ''status: In Use'' (check_mark @ line) = contains ''status: In Use'' line"
  by (simp add: check_mark_def)

lemma doc_cards_loop_paired:
  "fst (doc_cards_loop lines (result, rev (drop n descs))) =
     result @ paired_from n descs lines"
proof (induction lines arbitrary: result n)
  case Nil
  then show ?case by simp
next
  case (Cons line lines)
  have short: "drop n descs = []" "drop (Suc n) descs = []" if "\<not> n < length descs"
    using that by simp_all
  have long: "rev (drop n descs) = rev (drop (Suc n) descs) @ [descs ! n]" if "n < length descs"
    using that by (simp add: Cons_nth_drop_Suc [symmetric])
  show ?case
  proof (cases "n < length descs")
    case True
    with Cons.IH [of _ "Suc n"] Cons.IH [of _ n] long show ?thesis
      by (simp add: is_status_line_def marked_def contains_after_check_mark)
  next
    case False
    with Cons.IH [of _ "Suc n"] Cons.IH [of _ n] short show ?thesis
      by (simp add: is_status_line_def marked_def contains_after_check_mark)
  qed
qed

text \<open>
  Claim C3. Given the list of device descriptions and the lines of the slot-status
  output, \<^verbatim>\<open>doc_cards\<close> returns, without raising, the host's heading followed by the
  lines in order, each status line followed by the description at the same ordinal
  position (the N-th status line by the N-th description, in the order \<^verbatim>\<open>get_slots\<close>
  collected them), and by \<open>Error\<close> for each status line beyond the end of the list.
\<close>

theorem doc_cards_pairs_in_order:
  "doc_cards h (Inr descs) (Inr lines) =
     Inr (''### '' @ host h @ '' \<newline>\<newline>'' @ paired_from 0 descs lines @ '' \<newline>\<newline>'')"
proof (cases "doc_cards_loop lines ([], rev descs)")
  case (Pair result rest)
  with doc_cards_loop_paired [of lines "[]" 0 descs]
  have "result = paired_from 0 descs lines" by simp
  with Pair show ?thesis by (simp add: doc_cards_def)
qed

theorem doc_cards_pairs_in_order_witness:
  "doc_cards (root_host ''amy.r'') (Inr [''Intel NIC''])
     (Inr [''PCI Slots:'', ''Slot: 1 status: In Use'', ''Slot: 2 status: Available''])
   = Inr (''### amy.r \<newline>\<newline>PCI Slots:   \<newline>- '' @ cross_mark @
          ''Slot: 1 status: In Use   \<newline>Intel NIC  \<newline>- '' @ check_mark @
          ''Slot: 2 status: Available   \<newline>Error\<newline> \<newline>\<newline>'')"
  using doc_cards_pairs_in_order [of "root_host ''amy.r''" "[''Intel NIC'']"
      "[''PCI Slots:'', ''Slot: 1 status: In Use'', ''Slot: 2 status: Available'']"]
  by (simp add: root_host_def is_status_line_def marked_def)


section \<open>document_cards sorts the sections by hostname\<close>







section \<open>The power measurement: which hosts, and what a failure does\<close>

lemma power_loop_Cons:
  "power_loop w cmd label (x # xs) (t, ms) =
     (case measure_host w cmd label x of
        Inl e \<Rightarrow> ([PrintLine (mgmt_hostname x), Ipmitool (mgmt_hostname x) cmd], Inl e)
      | Inr (reading, n) \<Rightarrow>
          ([PrintLine (mgmt_hostname x), Ipmitool (mgmt_hostname x) cmd, PrintWatts reading,
            PrintLine []] @
             fst (power_loop w cmd label xs (t + n, ms @ [split_on (CHR ''.'') x ! 0])),
           snd (power_loop w cmd label xs (t + n, ms @ [split_on (CHR ''.'') x ! 0]))))"
  by (simp add: measure_host_def Let_def split: sum.splits prod.splits)

lemma power_loop_append:
  "power_loop w cmd label (xs @ ys) st =
     (case power_loop w cmd label xs st of
        (evs, Inl e) \<Rightarrow> (evs, Inl e)
      | (evs, Inr st') \<Rightarrow>
          (case power_loop w cmd label ys st' of (evs', r) \<Rightarrow> (evs @ evs', r)))"
proof (induction xs arbitrary: st)
  case Nil
  then show ?case by (cases st) (simp split: prod.splits)
next
  case (Cons x xs)
  obtain t ms where st: "st = (t, ms)" by (cases st)
  show ?case
    unfolding st
    by (simp add: power_loop_Cons Cons.IH split: sum.splits prod.splits del: power_loop.simps)
qed

lemma read_power_no_label:
  "\<not> list_ex (contains label) (str_splitlines w out) \<Longrightarrow> read_power w label out = Inl IndexError"
proof -
  assume "\<not> list_ex (contains label) (str_splitlines w out)"
  then have "filter (contains label) (str_splitlines w out) = []"
    by (simp add: list_ex_iff filter_empty_conv)
  then show ?thesis by (simp add: read_power_def)
qed

lemma power_loop_unrecognized:
  assumes "power_loop w cmd label pre st = (evs, Inr st')"
    and "ipmitool w (mgmt_hostname h) cmd = Inr out"
    and "\<not> list_ex (contains label) (str_splitlines w out)"
  shows "power_loop w cmd label (pre @ h # post) st =
           (evs @ [PrintLine (mgmt_hostname h), Ipmitool (mgmt_hostname h) cmd], Inl IndexError)"
proof -
  obtain t ms where st': "st' = (t, ms)" by (cases st')
  have "power_loop w cmd label (h # post) st' =
          ([PrintLine (mgmt_hostname h), Ipmitool (mgmt_hostname h) cmd], Inl IndexError)"
    unfolding st' using assms(2) read_power_no_label [OF assms(3)]
    by (simp add: power_loop_Cons measure_host_def del: power_loop.simps)
  with assms(1) show ?thesis by (simp add: power_loop_append)
qed

lemma power_loop_events:
  "e \<in> set (fst (power_loop w cmd label hs st)) \<Longrightarrow>
   \<not> is_report e \<and> (\<forall>h c. e = Ipmitool h c \<longrightarrow> h \<in> mgmt_hostname ` set hs \<and> c = cmd)"
proof (induction hs arbitrary: st)
  case Nil
  then show ?case by (cases st) simp
next
  case (Cons x xs)
  obtain t ms where st: "st = (t, ms)" by (cases st)
  show ?case
  proof (cases "measure_host w cmd label x")
    case (Inl err)
    with Cons.prems show ?thesis
      unfolding st by (auto simp: power_loop_Cons simp del: power_loop.simps)
  next
    case (Inr p)
    obtain r n where p: "p = (r, n)" by (cases p)
    from Cons.prems Inr p
    have "e \<in> {PrintLine (mgmt_hostname x), Ipmitool (mgmt_hostname x) cmd, PrintWatts r,
                PrintLine []} \<or>
          e \<in> set (fst (power_loop w cmd label xs (t + n, ms @ [split_on (CHR ''.'') x ! 0])))"
      unfolding st by (auto simp: power_loop_Cons simp del: power_loop.simps)
    then show ?thesis
    proof
      assume "e \<in> {PrintLine (mgmt_hostname x), Ipmitool (mgmt_hostname x) cmd, PrintWatts r,
                PrintLine []}"
      then show ?thesis by auto
    next
      assume "e \<in> set (fst (power_loop w cmd label xs (t + n, ms @ [split_on (CHR ''.'') x ! 0])))"
      then have "\<not> is_report e \<and>
                 (\<forall>h c. e = Ipmitool h c \<longrightarrow> h \<in> mgmt_hostname ` set xs \<and> c = cmd)"
        by (rule Cons.IH)
      then show ?thesis by auto
    qed
  qed
qed

lemma power_loop_result:
  "snd (power_loop w cmd label hs (t, ms)) = Inr (t', ms') \<Longrightarrow>
   t' = t + sum_list (map (reading_of w cmd label) hs) \<and>
   ms' = ms @ map (\<lambda>h. split_on (CHR ''.'') h ! 0) hs"
proof (induction hs arbitrary: t ms)
  case Nil
  then show ?case by simp
next
  case (Cons x xs)
  show ?case
  proof (cases "measure_host w cmd label x")
    case (Inl err)
    with Cons.prems show ?thesis
      by (simp add: power_loop_Cons del: power_loop.simps)
  next
    case (Inr p)
    obtain r n where p: "p = (r, n)" by (cases p)
    from Cons.prems Inr p
    have "snd (power_loop w cmd label xs (t + n, ms @ [split_on (CHR ''.'') x ! 0]))
            = Inr (t', ms')"
      by (simp add: power_loop_Cons del: power_loop.simps)
    then have "t' = t + n + sum_list (map (reading_of w cmd label) xs) \<and>
               ms' = (ms @ [split_on (CHR ''.'') x ! 0]) @ map (\<lambda>h. split_on (CHR ''.'') h ! 0) xs"
      by (rule Cons.IH)
    moreover from Inr p have "reading_of w cmd label x = n" by (simp add: reading_of_def)
    ultimately show ?thesis by simp
  qed
qed

lemma lookups:
  "map_of MANUFACTURERS ''dell'' = Some (hosts_of ''dell'')"
  "map_of MANUFACTURERS ''supermicro'' = Some (hosts_of ''supermicro'')"
  by (simp_all add: MANUFACTURERS_def hosts_of_def)

lemma ipmi_powerconsumption_cases:
  "ipmi_powerconsumption w =
     (case power_loop w dell_cmd ''Sensor Reading'' (hosts_of ''dell'') (0, []) of
        (evs1, Inl e) \<Rightarrow> (evs1, Inl e)
      | (evs1, Inr st) \<Rightarrow>
          (case power_loop w ''dcmi power reading'' ''Instantaneous power reading:''
                  (hosts_of ''supermicro'') st of
             (evs2, Inl e) \<Rightarrow> (evs1 @ evs2, Inl e)
           | (evs2, Inr (total_watts, hosts)) \<Rightarrow>
               (evs1 @ evs2 @
                  [PrintLine [], PrintMeasured hosts, PrintTotal total_watts, PrintLine []],
                Inr ())))"
  by (simp add: ipmi_powerconsumption_def lookups)

lemma broken_not_measured:
  "b \<in> set (hosts_of ''supermicro_broken'') \<Longrightarrow>
   mgmt_hostname b \<notin> mgmt_hostname ` set (hosts_of ''dell'' @ hosts_of ''supermicro'') \<and>
   first_label b \<notin> first_label ` set (hosts_of ''dell'' @ hosts_of ''supermicro'')"
  by (auto simp: hosts_of_def MANUFACTURERS_def mgmt_hostname_def first_label_def)

lemma loop_event:
  assumes "x \<in> set (fst (power_loop w cmd label hs st))" and "set hs \<subseteq> set all"
  shows "(\<forall>ms. x \<noteq> PrintMeasured ms) \<and> (\<forall>t. x \<noteq> PrintTotal t) \<and>
         (\<forall>h c. x = Ipmitool h c \<longrightarrow> h \<in> mgmt_hostname ` set all)"
proof -
  from power_loop_events [OF assms(1)]
  have "\<not> is_report x" and "\<forall>h c. x = Ipmitool h c \<longrightarrow> h \<in> mgmt_hostname ` set hs"
    by blast+
  with assms(2) show ?thesis by (cases x) auto
qed

lemma ipmi_powerconsumption_events:
  assumes "e \<in> set (fst (ipmi_powerconsumption w))"
  shows "(\<forall>h c. e = Ipmitool h c \<longrightarrow>
            h \<in> mgmt_hostname ` set (hosts_of ''dell'' @ hosts_of ''supermicro''))
       \<and> (\<forall>ms. e = PrintMeasured ms \<longrightarrow>
            ms = map first_label (hosts_of ''dell'' @ hosts_of ''supermicro''))
       \<and> (\<forall>t. e = PrintTotal t \<longrightarrow>
            t = sum_list (map (reading_of w dell_cmd ''Sensor Reading'') (hosts_of ''dell'')) +
                sum_list (map (reading_of w ''dcmi power reading''
                                 ''Instantaneous power reading:'') (hosts_of ''supermicro'')))"
proof -
  let ?all = "hosts_of ''dell'' @ hosts_of ''supermicro''"
  let ?l1 = "power_loop w dell_cmd ''Sensor Reading'' (hosts_of ''dell'') (0, [])"
  obtain evs1 r1 where l1: "?l1 = (evs1, r1)" by (cases ?l1)
  have in1: "(\<forall>ms. x \<noteq> PrintMeasured ms) \<and> (\<forall>t. x \<noteq> PrintTotal t) \<and>
             (\<forall>h c. x = Ipmitool h c \<longrightarrow> h \<in> mgmt_hostname ` set ?all)"
    if "x \<in> set evs1" for x
  proof (rule loop_event)
    from that l1 show "x \<in> set (fst ?l1)" by simp
    show "set (hosts_of ''dell'') \<subseteq> set ?all" by simp
  qed
  show ?thesis
  proof (cases r1)
    case (Inl err)
    with assms l1 have "e \<in> set evs1" by (simp add: ipmi_powerconsumption_cases)
    from in1 [OF this] show ?thesis by blast
  next
    case (Inr st)
    obtain t1 ms1 where st: "st = (t1, ms1)" by (cases st)
    from l1 Inr st have "snd ?l1 = Inr (t1, ms1)" by simp
    from power_loop_result [OF this]
    have r1: "t1 = sum_list (map (reading_of w dell_cmd ''Sensor Reading'') (hosts_of ''dell''))"
      "ms1 = map first_label (hosts_of ''dell'')"
      by (simp_all add: first_label_def)
    let ?l2 = "power_loop w ''dcmi power reading'' ''Instantaneous power reading:''
                 (hosts_of ''supermicro'') (t1, ms1)"
    obtain evs2 r2 where l2: "?l2 = (evs2, r2)" by (cases ?l2)
    have in2: "(\<forall>ms. x \<noteq> PrintMeasured ms) \<and> (\<forall>t. x \<noteq> PrintTotal t) \<and>
               (\<forall>h c. x = Ipmitool h c \<longrightarrow> h \<in> mgmt_hostname ` set ?all)"
      if "x \<in> set evs2" for x
    proof (rule loop_event)
      from that l2 show "x \<in> set (fst ?l2)" by simp
      show "set (hosts_of ''supermicro'') \<subseteq> set ?all" by simp
    qed
    show ?thesis
    proof (cases r2)
      case (Inl err)
      with assms l1 l2 \<open>r1 = Inr st\<close> st have "e \<in> set evs1 \<or> e \<in> set evs2"
        by (simp add: ipmi_powerconsumption_cases)
      then show ?thesis
      proof
        assume "e \<in> set evs1" from in1 [OF this] show ?thesis by blast
      next
        assume "e \<in> set evs2" from in2 [OF this] show ?thesis by blast
      qed
    next
      case (Inr st2)
      obtain t2 ms2 where st2: "st2 = (t2, ms2)" by (cases st2)
      from l2 Inr st2 have "snd ?l2 = Inr (t2, ms2)" by simp
      from power_loop_result [OF this] r1
      have r2: "t2 = sum_list (map (reading_of w dell_cmd ''Sensor Reading'') (hosts_of ''dell'')) +
                sum_list (map (reading_of w ''dcmi power reading''
                                 ''Instantaneous power reading:'') (hosts_of ''supermicro''))"
        "ms2 = map first_label (hosts_of ''dell'' @ hosts_of ''supermicro'')"
        by (simp_all add: first_label_def)
      from assms l1 l2 \<open>r1 = Inr st\<close> st Inr st2
      have "e \<in> set evs1 \<or> e \<in> set evs2 \<or>
            e \<in> {PrintLine [], PrintMeasured ms2, PrintTotal t2}"
        by (auto simp: ipmi_powerconsumption_cases)
      then show ?thesis
      proof (elim disjE)
        assume "e \<in> set evs1" from in1 [OF this] show ?thesis by blast
      next
        assume "e \<in> set evs2" from in2 [OF this] show ?thesis by blast
      next
        assume "e \<in> {PrintLine [], PrintMeasured ms2, PrintTotal t2}"
        with r2 show ?thesis by auto
      qed
    qed
  qed
qed

text \<open>
  Claim C10. In every world, every \<^verbatim>\<open>ipmitool\<close> call of the measurement goes to the
  management hostname of a host of the \<open>dell\<close> or the \<open>supermicro\<close> group; no call goes to
  a host of the \<open>supermicro_broken\<close> group; the list of measured hosts, when it is
  printed, is the first labels of the \<open>dell\<close> hosts followed by those of the
  \<open>supermicro\<close> hosts and holds no \<open>supermicro_broken\<close> host; and the total, when it is
  printed, is the sum of the readings of the \<open>dell\<close> and the \<open>supermicro\<close> hosts.
\<close>

theorem power_measurement_skips_broken_hosts:
  "(\<forall>h c. Ipmitool h c \<in> set (fst (ipmi_powerconsumption w)) \<longrightarrow>
       h \<in> mgmt_hostname ` set (hosts_of ''dell'' @ hosts_of ''supermicro''))
   \<and> (\<forall>b\<in>set (hosts_of ''supermicro_broken'').
        \<forall>c. Ipmitool (mgmt_hostname b) c \<notin> set (fst (ipmi_powerconsumption w)))
   \<and> (\<forall>ms. PrintMeasured ms \<in> set (fst (ipmi_powerconsumption w)) \<longrightarrow>
        ms = map first_label (hosts_of ''dell'' @ hosts_of ''supermicro'') \<and>
        (\<forall>b\<in>set (hosts_of ''supermicro_broken''). first_label b \<notin> set ms))
   \<and> (\<forall>t. PrintTotal t \<in> set (fst (ipmi_powerconsumption w)) \<longrightarrow>
        t = sum_list (map (reading_of w dell_cmd ''Sensor Reading'') (hosts_of ''dell'')) +
            sum_list (map (reading_of w ''dcmi power reading''
                             ''Instantaneous power reading:'') (hosts_of ''supermicro'')))"
proof (intro conjI allI impI ballI)
  fix h c assume "Ipmitool h c \<in> set (fst (ipmi_powerconsumption w))"
  from ipmi_powerconsumption_events [OF this]
  show "h \<in> mgmt_hostname ` set (hosts_of ''dell'' @ hosts_of ''supermicro'')" by blast
next
  fix b c assume b: "b \<in> set (hosts_of ''supermicro_broken'')"
  show "Ipmitool (mgmt_hostname b) c \<notin> set (fst (ipmi_powerconsumption w))"
  proof
    assume "Ipmitool (mgmt_hostname b) c \<in> set (fst (ipmi_powerconsumption w))"
    from ipmi_powerconsumption_events [OF this]
    have "mgmt_hostname b \<in> mgmt_hostname ` set (hosts_of ''dell'' @ hosts_of ''supermicro'')"
      by blast
    with broken_not_measured [OF b] show False by blast
  qed
next
  fix ms assume ms: "PrintMeasured ms \<in> set (fst (ipmi_powerconsumption w))"
  from ipmi_powerconsumption_events [OF this]
  show eq: "ms = map first_label (hosts_of ''dell'' @ hosts_of ''supermicro'')" by blast
  fix b assume b: "b \<in> set (hosts_of ''supermicro_broken'')"
  from broken_not_measured [OF b] have "first_label b \<notin> set (map first_label (hosts_of ''dell'' @ hosts_of ''supermicro''))"
    by (simp only: set_map) blast
  with eq show "first_label b \<notin> set ms" by simp
next
  fix t assume "PrintTotal t \<in> set (fst (ipmi_powerconsumption w))"
  from ipmi_powerconsumption_events [OF this]
  show "t = sum_list (map (reading_of w dell_cmd ''Sensor Reading'') (hosts_of ''dell'')) +
            sum_list (map (reading_of w ''dcmi power reading''
                             ''Instantaneous power reading:'') (hosts_of ''supermicro''))"
    by blast
qed

lemma dell_hosts:
  "hosts_of ''dell'' = [''ryan.dse.in.tum.de'', ''graham.dse.in.tum.de'', ''astrid.dse.in.tum.de'',
        ''dan.dse.in.tum.de'', ''mickey.dse.in.tum.de'']"
  by (simp add: hosts_of_def MANUFACTURERS_def)

lemma no_report_when_raised:
  assumes "snd (ipmi_powerconsumption w) = Inl err"
  shows "\<not> list_ex is_report (fst (ipmi_powerconsumption w))"
proof -
  let ?l1 = "power_loop w dell_cmd ''Sensor Reading'' (hosts_of ''dell'') (0, [])"
  obtain evs1 r1 where l1: "?l1 = (evs1, r1)" by (cases ?l1)
  have in1: "\<not> is_report x" if "x \<in> set evs1" for x
    using power_loop_events [of x w dell_cmd "''Sensor Reading''" "hosts_of ''dell''" "(0, [])"]
      that l1 by simp
  show ?thesis
  proof (cases r1)
    case (Inl e1)
    with l1 have "fst (ipmi_powerconsumption w) = evs1"
      by (simp add: ipmi_powerconsumption_cases)
    with in1 show ?thesis by (auto simp: list_ex_iff)
  next
    case (Inr st)
    let ?l2 = "power_loop w ''dcmi power reading'' ''Instantaneous power reading:''
                 (hosts_of ''supermicro'') st"
    obtain evs2 r2 where l2: "?l2 = (evs2, r2)" by (cases ?l2)
    have in2: "\<not> is_report x" if "x \<in> set evs2" for x
      using power_loop_events [of x w "''dcmi power reading''" "''Instantaneous power reading:''"
               "hosts_of ''supermicro''" st] that l2 by simp
    show ?thesis
    proof (cases r2)
      case (Inl e2)
      with l1 l2 \<open>r1 = Inr st\<close> have "fst (ipmi_powerconsumption w) = evs1 @ evs2"
        by (simp add: ipmi_powerconsumption_cases)
      with in1 in2 show ?thesis by (auto simp: list_ex_iff)
    next
      case (Inr st2)
      with l1 l2 \<open>r1 = Inr st\<close> have "snd (ipmi_powerconsumption w) = Inr ()"
        by (simp add: ipmi_powerconsumption_cases split: prod.splits)
      with assms show ?thesis by simp
    qed
  qed
qed

text \<open>
  Claim C4, as the code has it. When the output of a host's \<^verbatim>\<open>ipmitool\<close> call has no line
  with the label of its manufacturer, the parse raises \<^verbatim>\<open>IndexError\<close>, and the exception
  ends the whole measurement: the run consists of the events of the hosts before it and
  of the failing host's hostname line and call, and no later host is queried. This holds
  for a host of the \<open>dell\<close> loop and for a host of the \<open>supermicro\<close> loop. Whenever the
  task raises, neither the list of measured hosts nor the total is printed.
\<close>

theorem unrecognized_output_aborts_measurement:
  "(hosts_of ''dell'' = pre @ h # post \<longrightarrow>
    power_loop w dell_cmd ''Sensor Reading'' pre (0, []) = (evs, Inr st) \<longrightarrow>
    ipmitool w (mgmt_hostname h) dell_cmd = Inr out \<longrightarrow>
    \<not> list_ex (contains ''Sensor Reading'') (str_splitlines w out) \<longrightarrow>
    ipmi_powerconsumption w =
      (evs @ [PrintLine (mgmt_hostname h), Ipmitool (mgmt_hostname h) dell_cmd], Inl IndexError))
   \<and> (power_loop w dell_cmd ''Sensor Reading'' (hosts_of ''dell'') (0, []) = (evs1, Inr st1) \<longrightarrow>
      hosts_of ''supermicro'' = pre' @ h' # post' \<longrightarrow>
      power_loop w ''dcmi power reading'' ''Instantaneous power reading:'' pre' st1
        = (evs2, Inr st2) \<longrightarrow>
      ipmitool w (mgmt_hostname h') ''dcmi power reading'' = Inr out' \<longrightarrow>
      \<not> list_ex (contains ''Instantaneous power reading:'') (str_splitlines w out') \<longrightarrow>
      ipmi_powerconsumption w =
        (evs1 @ evs2 @ [PrintLine (mgmt_hostname h'),
                        Ipmitool (mgmt_hostname h') ''dcmi power reading''], Inl IndexError))
   \<and> (snd (ipmi_powerconsumption w) = Inl err \<longrightarrow>
      \<not> list_ex is_report (fst (ipmi_powerconsumption w)))"
proof (intro conjI impI)
  assume "hosts_of ''dell'' = pre @ h # post"
    and "power_loop w dell_cmd ''Sensor Reading'' pre (0, []) = (evs, Inr st)"
    and "ipmitool w (mgmt_hostname h) dell_cmd = Inr out"
    and "\<not> list_ex (contains ''Sensor Reading'') (str_splitlines w out)"
  then show "ipmi_powerconsumption w =
      (evs @ [PrintLine (mgmt_hostname h), Ipmitool (mgmt_hostname h) dell_cmd], Inl IndexError)"
    by (simp add: ipmi_powerconsumption_cases power_loop_unrecognized)
next
  assume "power_loop w dell_cmd ''Sensor Reading'' (hosts_of ''dell'') (0, []) = (evs1, Inr st1)"
    and "hosts_of ''supermicro'' = pre' @ h' # post'"
    and "power_loop w ''dcmi power reading'' ''Instantaneous power reading:'' pre' st1
        = (evs2, Inr st2)"
    and "ipmitool w (mgmt_hostname h') ''dcmi power reading'' = Inr out'"
    and "\<not> list_ex (contains ''Instantaneous power reading:'') (str_splitlines w out')"
  then show "ipmi_powerconsumption w =
        (evs1 @ evs2 @ [PrintLine (mgmt_hostname h'),
                        Ipmitool (mgmt_hostname h') ''dcmi power reading''], Inl IndexError)"
    by (simp add: ipmi_powerconsumption_cases power_loop_unrecognized)
next
  assume "snd (ipmi_powerconsumption w) = Inl err"
  then show "\<not> list_ex is_report (fst (ipmi_powerconsumption w))"
    by (rule no_report_when_raised)
qed

lemma ryan_reading:
  "measure_host graham_unreadable dell_cmd ''Sensor Reading'' ''ryan.dse.in.tum.de''
     = Inr (''140'', 140)"
  by code_simp

lemma graham_output:
  "ipmitool graham_unreadable (mgmt_hostname ''graham.dse.in.tum.de'') dell_cmd = Inr ''no data''"
  by code_simp

lemma graham_lines:
  "\<not> list_ex (contains ''Sensor Reading'') (str_splitlines graham_unreadable ''no data'')"
  by code_simp

theorem unrecognized_output_aborts_measurement_witness:
  "ipmi_powerconsumption graham_unreadable =
     ([PrintLine ''ryan-mgmt.dse.in.tum.de'', Ipmitool ''ryan-mgmt.dse.in.tum.de'' dell_cmd,
       PrintWatts ''140'', PrintLine [],
       PrintLine ''graham-mgmt.dse.in.tum.de'', Ipmitool ''graham-mgmt.dse.in.tum.de'' dell_cmd],
      Inl IndexError)"
proof -
  have split: "hosts_of ''dell'' = [''ryan.dse.in.tum.de''] @ ''graham.dse.in.tum.de'' #
         [''astrid.dse.in.tum.de'', ''dan.dse.in.tum.de'', ''mickey.dse.in.tum.de'']"
    by (simp add: dell_hosts)
  have ryan: "mgmt_hostname ''ryan.dse.in.tum.de'' = ''ryan-mgmt.dse.in.tum.de''"
    and graham: "mgmt_hostname ''graham.dse.in.tum.de'' = ''graham-mgmt.dse.in.tum.de''"
    by (simp_all add: mgmt_hostname_def)
  have pre: "power_loop graham_unreadable dell_cmd ''Sensor Reading'' [''ryan.dse.in.tum.de'']
               (0, [])
             = ([PrintLine ''ryan-mgmt.dse.in.tum.de'',
                 Ipmitool ''ryan-mgmt.dse.in.tum.de'' dell_cmd, PrintWatts ''140'', PrintLine []],
                Inr (140, [''ryan'']))"
    by (simp add: power_loop_Cons ryan_reading ryan del: power_loop.simps(2))
  from unrecognized_output_aborts_measurement [THEN conjunct1, rule_format,
         OF split pre graham_output graham_lines]
  show ?thesis by (simp add: graham)
qed

text \<open>
  Claim C4, as stated, fails in its second half. When the first Dell host prints a text
  without the label, the run ends with \<^verbatim>\<open>IndexError\<close> after that host: the next host,
  whose controller would have answered with a reading of 140, is never queried.
\<close>

theorem sibling_hosts_not_measured_counterexample:
  "ipmi_powerconsumption ryan_unreadable =
     ([PrintLine ''ryan-mgmt.dse.in.tum.de'', Ipmitool ''ryan-mgmt.dse.in.tum.de'' dell_cmd],
      Inl IndexError)
   \<and> measure_host ryan_unreadable dell_cmd ''Sensor Reading'' ''graham.dse.in.tum.de''
       = Inr (''140'', 140)
   \<and> \<not> list_ex (\<lambda>e. e = Ipmitool ''graham-mgmt.dse.in.tum.de'' dell_cmd)
         (fst (ipmi_powerconsumption ryan_unreadable))"
proof -
  have m: "measure_host ryan_unreadable dell_cmd ''Sensor Reading'' ''ryan.dse.in.tum.de''
             = Inl IndexError"
    by code_simp
  have g: "measure_host ryan_unreadable dell_cmd ''Sensor Reading'' ''graham.dse.in.tum.de''
       = Inr (''140'', 140)"
    by code_simp
  have ryan: "mgmt_hostname ''ryan.dse.in.tum.de'' = ''ryan-mgmt.dse.in.tum.de''"
    by (simp add: mgmt_hostname_def)
  have "ipmi_powerconsumption ryan_unreadable =
     ([PrintLine ''ryan-mgmt.dse.in.tum.de'', Ipmitool ''ryan-mgmt.dse.in.tum.de'' dell_cmd],
      Inl IndexError)"
    by (simp add: ipmi_powerconsumption_cases dell_hosts power_loop_Cons m ryan
          del: power_loop.simps(2))
  with g show ?thesis by (simp add: dell_cmd_def)
qed

theorem power_measurement_skips_broken_hosts_witness:
  "Ipmitool (mgmt_hostname ''bill.dse.in.tum.de'') dell_cmd
     \<notin> set (fst (ipmi_powerconsumption graham_unreadable))
   \<and> Ipmitool (mgmt_hostname ''nardole.dse.in.tum.de'') ''dcmi power reading''
     \<notin> set (fst (ipmi_powerconsumption graham_unreadable))"
proof -
  have "''bill.dse.in.tum.de'' \<in> set (hosts_of ''supermicro_broken'')"
    and "''nardole.dse.in.tum.de'' \<in> set (hosts_of ''supermicro_broken'')"
    by (simp_all add: hosts_of_def MANUFACTURERS_def)
  with power_measurement_skips_broken_hosts [of graham_unreadable, THEN conjunct2, THEN conjunct1]
  show ?thesis by blast
qed

section \<open>The LLDP collection dispatches to the global host list\<close>

lemma filter_interleave_singletons:
  "mset (filter is_run_local (interleave sched (map (\<lambda>h. [RunLocal (f h) (g h)]) hs)))
     = mset (map (\<lambda>h. RunLocal (f h) (g h)) hs)"
proof -
  have "mset (filter is_run_local (interleave sched (map (\<lambda>h. [RunLocal (f h) (g h)]) hs)))
        = filter_mset is_run_local (mset (concat (map (\<lambda>h. [RunLocal (f h) (g h)]) hs)))"
    by (simp only: mset_filter mset_interleave)
  also have "concat (map (\<lambda>h. [RunLocal (f h) (g h)]) hs) = map (\<lambda>h. RunLocal (f h) (g h)) hs"
    by (induction hs) simp_all
  also have "filter_mset is_run_local (mset (map (\<lambda>h. RunLocal (f h) (g h)) hs))
             = mset (map (\<lambda>h. RunLocal (f h) (g h)) hs)"
    by (induction hs) simp_all
  finally show ?thesis .
qed

text \<open>
  Claim C9. \<^verbatim>\<open>get_lldp_neighbors\<close> does the same for every value of its host-list
  argument; the update task, whatever subset the user passes, does what a call with the
  full global list does; and the local commands of a run are exactly one per host of
  \<^verbatim>\<open>HOSTS\<close>, each for that host.
\<close>

theorem get_lldp_neighbors_ignores_hosts:
  "get_lldp_neighbors hosts w sched = get_lldp_neighbors hosts' w sched
   \<and> update_lldp_info arg w sched = get_lldp_neighbors HOSTS w sched
   \<and> mset (filter is_run_local (fst (get_lldp_neighbors hosts w sched)))
       = mset (map (\<lambda>h. RunLocal h (''../../get-lldp-neighbors.sh '' @ h)) HOSTS)"
proof (intro conjI)
  show "get_lldp_neighbors hosts w sched = get_lldp_neighbors hosts' w sched"
    by (simp add: get_lldp_neighbors_def)
  show "update_lldp_info arg w sched = get_lldp_neighbors HOSTS w sched"
    by (simp add: update_lldp_info_def get_lldp_neighbors_def)
  let ?mid = "interleave sched (map fst (map (doc_tum w) (map root_host HOSTS)))"
  have tr: "filter is_run_local (fst (get_lldp_neighbors hosts w sched))
              = filter is_run_local ?mid"
    by (simp add: get_lldp_neighbors_def Let_def)
  have runs: "map fst (map (doc_tum w) (map root_host HOSTS))
        = map (\<lambda>h. [RunLocal h (''../../get-lldp-neighbors.sh '' @ h)]) HOSTS"
    by (simp add: doc_tum_def root_host_def comp_def)
  have "mset (filter is_run_local ?mid)
        = mset (map (\<lambda>h. RunLocal h (''../../get-lldp-neighbors.sh '' @ h)) HOSTS)"
    unfolding runs
    by (rule filter_interleave_singletons
          [of sched "\<lambda>h. h" "\<lambda>h. ''../../get-lldp-neighbors.sh '' @ h" HOSTS])
  then show "mset (filter is_run_local (fst (get_lldp_neighbors hosts w sched)))
       = mset (map (\<lambda>h. RunLocal h (''../../get-lldp-neighbors.sh '' @ h)) HOSTS)"
    by (simp only: tr)
qed

theorem get_lldp_neighbors_ignores_hosts_witness:
  "update_lldp_info ''ryan.dse.in.tum.de''
       \<lparr>getcwd = ''/repo'', lldp_exists = False, script_rc = (\<lambda>cmd. 0)\<rparr> []
     = get_lldp_neighbors []
         \<lparr>getcwd = ''/repo'', lldp_exists = False, script_rc = (\<lambda>cmd. 0)\<rparr> []
   \<and> length (filter is_run_local
         (fst (get_lldp_neighbors [''ryan.dse.in.tum.de'']
                \<lparr>getcwd = ''/repo'', lldp_exists = False, script_rc = (\<lambda>cmd. 0)\<rparr> []))) = 17"
proof -
  let ?w = "\<lparr>getcwd = ''/repo'', lldp_exists = False, script_rc = (\<lambda>cmd. 0)\<rparr>"
  note t = get_lldp_neighbors_ignores_hosts
             [of "[''ryan.dse.in.tum.de'']" ?w "[]" "HOSTS" "''ryan.dse.in.tum.de''"]
  note u = get_lldp_neighbors_ignores_hosts [of "[]" ?w "[]" "HOSTS" "''ryan.dse.in.tum.de''"]
  note m = t [THEN conjunct2, THEN conjunct2]
  have "length (filter is_run_local (fst (get_lldp_neighbors [''ryan.dse.in.tum.de''] ?w [])))
        = size (mset (filter is_run_local
                        (fst (get_lldp_neighbors [''ryan.dse.in.tum.de''] ?w []))))"
    by (rule size_mset [symmetric])
  also have "\<dots> = size (mset (map (\<lambda>h. RunLocal h (''../../get-lldp-neighbors.sh '' @ h)) HOSTS))"
    by (simp only: m)
  also have "\<dots> = length HOSTS" by (simp only: size_mset length_map)
  also have "\<dots> = 17" by (simp add: HOSTS_def)
  finally have len: "length (filter is_run_local
                        (fst (get_lldp_neighbors [''ryan.dse.in.tum.de''] ?w []))) = 17" .
  have "update_lldp_info ''ryan.dse.in.tum.de'' ?w [] = get_lldp_neighbors [] ?w []"
    by (simp only: t [THEN conjunct2, THEN conjunct1] u [THEN conjunct1])
  with len show ?thesis by (intro conjI)
qed

section \<open>The staging directory is gone after the task\<close>

lemma cleanup_not_staged: "\<not> staged d (cleanup d fs)"
  by (simp add: staged_def cleanup_def)

lemma with_TemporaryDirectory_not_staged:
  "\<not> staged tmp (snd (with_TemporaryDirectory tmp body fs))"
  by (simp add: with_TemporaryDirectory_def cleanup_not_staged split: prod.splits)

lemma leaky_cert_fails: "fst (generate_ssh_cert (leaky_shell ''ssh-keygen -h'') ''/repo'' ''bill'' ''/tmp/tmpx''
              Map.empty) = Inl UnexpectedExit"
  by (simp add: generate_ssh_cert_def with_TemporaryDirectory_def io_bind_def io_return_def
        c_run_sh_def stage_host_key_def read_text_def write_text_def leaky_shell_def sq_def dq_def
        Let_def split: prod.splits)

lemma leaky_cert_succeeds: "fst (generate_ssh_cert (leaky_shell ''no such command'') ''/repo'' ''bill'' ''/tmp/tmpx''
              Map.empty) = Inr ()"
  by (simp add: generate_ssh_cert_def with_TemporaryDirectory_def io_bind_def io_return_def
        c_run_sh_def stage_host_key_def read_text_def write_text_def leaky_shell_def sq_def dq_def
        Let_def split: prod.splits)

lemma leaky_install_fails: "fst (reformat_install_nixos (leaky_shell ''nixos-anywhere'') ''/repo'' ''amy'' ''eth0''
              ''/tmp/tmpx'' Map.empty) = Inl UnexpectedExit"
  by (simp add: reformat_install_nixos_def decrypt_host_keys_def os_mkdir_def
        with_TemporaryDirectory_def io_bind_def io_return_def
        c_run_sh_def leaky_shell_def sq_def dq_def
        Let_def split: prod.splits)

text \<open>
  Claim C8. After \<^verbatim>\<open>generate_ssh_cert\<close> and after \<^verbatim>\<open>reformat_install_nixos\<close>, whatever the
  commands did and whether the task returned or raised, nothing is left at or under the
  path of its temporary directory.
\<close>

theorem staging_directory_removed:
  "\<not> staged tmp (snd (generate_ssh_cert w ROOT host_arg tmp fs))
   \<and> \<not> staged tmp (snd (reformat_install_nixos w ROOT host_arg dhcp_interface tmp fs))"
  by (simp add: generate_ssh_cert_def reformat_install_nixos_def Let_def
        with_TemporaryDirectory_not_staged)

theorem staging_directory_removed_witness:
  "fst (generate_ssh_cert (leaky_shell ''ssh-keygen -h'') ''/repo'' ''bill'' ''/tmp/tmpx''
          Map.empty) = Inl UnexpectedExit
   \<and> \<not> staged ''/tmp/tmpx''
         (snd (generate_ssh_cert (leaky_shell ''ssh-keygen -h'') ''/repo'' ''bill'' ''/tmp/tmpx''
                 Map.empty))
   \<and> fst (generate_ssh_cert (leaky_shell ''no such command'') ''/repo'' ''bill'' ''/tmp/tmpx''
            Map.empty) = Inr ()
   \<and> \<not> staged ''/tmp/tmpx''
         (snd (generate_ssh_cert (leaky_shell ''no such command'') ''/repo'' ''bill'' ''/tmp/tmpx''
                 Map.empty))
   \<and> fst (reformat_install_nixos (leaky_shell ''nixos-anywhere'') ''/repo'' ''amy'' ''eth0''
            ''/tmp/tmpx'' Map.empty) = Inl UnexpectedExit
   \<and> \<not> staged ''/tmp/tmpx''
         (snd (reformat_install_nixos (leaky_shell ''nixos-anywhere'') ''/repo'' ''amy'' ''eth0''
                 ''/tmp/tmpx'' Map.empty))"
  using leaky_cert_fails leaky_cert_succeeds leaky_install_fails
    staging_directory_removed [where tmp = "''/tmp/tmpx''" and w = "leaky_shell ''ssh-keygen -h''"
      and ROOT = "''/repo''" and host_arg = "''bill''" and fs = Map.empty
      and dhcp_interface = "''eth0''"]
    staging_directory_removed [where tmp = "''/tmp/tmpx''" and w = "leaky_shell ''no such command''"
      and ROOT = "''/repo''" and host_arg = "''bill''" and fs = Map.empty
      and dhcp_interface = "''eth0''"]
    staging_directory_removed [where tmp = "''/tmp/tmpx''" and w = "leaky_shell ''nixos-anywhere''"
      and ROOT = "''/repo''" and host_arg = "''amy''" and fs = Map.empty
      and dhcp_interface = "''eth0''"]
  by (intro conjI) (elim conjE, assumption)+

end
